theory Spec2Isabelle
  imports Complex_Main
begin

section \<open>Domain model\<close>

text \<open>
  The data of \<^verbatim>\<open>src/types/snaplogic.ts\<close>, with the two node fields \<^verbatim>\<open>size\<close> and
  \<^verbatim>\<open>memoryOptimized\<close> that the sidebar writes and the shape code reads. A JavaScript
  \<^verbatim>\<open>number\<close> is modelled as an exact rational: the layout only adds, subtracts and
  compares small integer constants, and the shape code additionally halves and scales.
  A JavaScript string is a list of characters, one \<open>char\<close> per code unit.
\<close>

type_synonym num = rat

datatype EnvironmentType = production | staging | development | sandbox

datatype SnaplexType = cloudplex | groundplex

datatype SnaplexStatus = active | inactive | maintenance

datatype NodeType = JCC | FM

datatype NodeStatus = running | stopped | error

datatype NodeSize = medium | size_L | size_XL | size_2XL

datatype EndpointType = ep_rest | ep_soap | ep_database | ep_file | ep_kafka | ep_sqs | ep_mqtt

datatype ConnectionType = data_flow | network | dependency

record ExecutionNode =
  node_id :: string
  node_name :: string
  node_type :: NodeType
  hostname :: string
  node_status :: NodeStatus
  node_size :: NodeSize
  memoryOptimized :: bool

record SnaplexContainer =
  nodes :: "ExecutionNode list"
  minWidth :: num
  minHeight :: num

record Snaplex =
  snaplex_id :: string
  snaplex_name :: string
  snaplex_type :: SnaplexType
  snaplex_environment :: string
  container :: SnaplexContainer
  snaplex_status :: SnaplexStatus

record Environment =
  env_id :: string
  env_name :: string
  env_type :: EnvironmentType
  region :: string
  snaplexes :: "Snaplex list"

record Endpoint =
  endpoint_id :: string
  endpoint_name :: string
  endpoint_type :: EndpointType
  url :: "string option"

record Connection =
  conn_id :: string
  source :: string
  target :: string
  conn_type :: ConnectionType
  conn_label :: "string option"

section \<open>Auto-layout (\<^verbatim>\<open>autoLayout\<close> in src/utils/excalidrawHelpers.ts)\<close>

record Point =
  pos_x :: num
  pos_y :: num

record Size =
  dim_width :: num
  dim_height :: num

type_synonym positionMap = "string \<rightharpoonup> Point"
type_synonym dimensionMap = "string \<rightharpoonup> Size"

abbreviation ENV_WIDTH :: num where "ENV_WIDTH \<equiv> 1200"
abbreviation ENV_HEIGHT :: num where "ENV_HEIGHT \<equiv> 500"
abbreviation SNAPLEX_WIDTH :: num where "SNAPLEX_WIDTH \<equiv> 450"
abbreviation SNAPLEX_HEIGHT :: num where "SNAPLEX_HEIGHT \<equiv> 300"
abbreviation NODE_SPACING :: num where "NODE_SPACING \<equiv> 80"
abbreviation SNAPLEX_MARGIN :: num where "SNAPLEX_MARGIN \<equiv> 40"
abbreviation nodesPerRow :: nat where "nodesPerRow \<equiv> 5"

text \<open>
  The keys of both maps are the template strings \<^verbatim>\<open>`env-${env.id}`\<close>,
  \<^verbatim>\<open>`snaplex-${snaplex.id}`\<close>, \<^verbatim>\<open>`node-${node.id}`\<close> and
  \<^verbatim>\<open>`endpoint-${endpoint.id}`\<close>.
\<close>

definition envKey :: "string \<Rightarrow> string" where
  "envKey i = ''env-'' @ i"

definition snaplexKey :: "string \<Rightarrow> string" where
  "snaplexKey i = ''snaplex-'' @ i"

definition nodeKey :: "string \<Rightarrow> string" where
  "nodeKey i = ''node-'' @ i"

definition endpointKey :: "string \<Rightarrow> string" where
  "endpointKey i = ''endpoint-'' @ i"

text \<open>
  The innermost \<^verbatim>\<open>forEach\<close>, over the nodes of one snaplex: \<open>nIndex\<close> is the array
  index, \<open>nodeX\<close> and \<open>nodeY\<close> are the two variables the callback updates. Only the
  position map is read after the loop.
\<close>

fun layoutNodes ::
  "num \<Rightarrow> num \<Rightarrow> nat \<Rightarrow> num \<Rightarrow> num \<Rightarrow> ExecutionNode list \<Rightarrow> positionMap \<Rightarrow> positionMap" where
  "layoutNodes nodeStartX nodeSpacing nIndex nodeX nodeY [] posMap = posMap"
| "layoutNodes nodeStartX nodeSpacing nIndex nodeX nodeY (node # rest) posMap =
     (let newRow = (nIndex > 0 \<and> nIndex mod nodesPerRow = 0);
          nodeX1 = (if newRow then nodeStartX else nodeX);
          nodeY1 = (if newRow then nodeY + 70 else nodeY)
      in layoutNodes nodeStartX nodeSpacing (Suc nIndex) (nodeX1 + nodeSpacing) nodeY1 rest
           (posMap(nodeKey (node_id node) \<mapsto> \<lparr>pos_x = nodeX1, pos_y = nodeY1\<rparr>)))"

text \<open>The variables of the \<^verbatim>\<open>env.snaplexes.forEach\<close> callback, with both maps.\<close>

record snaplexLoop =
  sl_positions :: positionMap
  sl_envDimensions :: dimensionMap
  snaplexX :: num
  maxX :: num
  maxY :: num

definition snaplexRows :: "Snaplex \<Rightarrow> int" where
  "snaplexRows snaplex =
     \<lceil>(of_nat (length (nodes (container snaplex))) :: rat) / of_nat nodesPerRow\<rceil>"

definition snaplexHeight :: "Snaplex \<Rightarrow> num" where
  "snaplexHeight snaplex =
     (let nodeRows = snaplexRows snaplex;
          calculatedSnaplexHeight =
            SNAPLEX_HEIGHT + (if nodeRows > 1 then of_int (nodeRows - 1) * 70 else 0)
      in max SNAPLEX_HEIGHT calculatedSnaplexHeight)"

definition layoutSnaplex :: "num \<Rightarrow> snaplexLoop \<Rightarrow> Snaplex \<Rightarrow> snaplexLoop" where
  "layoutSnaplex snaplexY st snaplex =
     (let positions1 = (sl_positions st)
            (snaplexKey (snaplex_id snaplex) \<mapsto> \<lparr>pos_x = snaplexX st, pos_y = snaplexY\<rparr>);
          maxX1 = max (maxX st) (snaplexX st + SNAPLEX_WIDTH);
          nodeStartX = snaplexX st + 50;
          nodeSpacing = NODE_SPACING - 10;
          positions2 = layoutNodes nodeStartX nodeSpacing 0 nodeStartX (snaplexY + 220)
                         (nodes (container snaplex)) positions1;
          actualSnaplexHeight = snaplexHeight snaplex;
          maxY1 = max (maxY st) (snaplexY + actualSnaplexHeight)
      in \<lparr>sl_positions = positions2,
          sl_envDimensions = (sl_envDimensions st)
            (snaplexKey (snaplex_id snaplex) \<mapsto>
               \<lparr>dim_width = SNAPLEX_WIDTH, dim_height = actualSnaplexHeight\<rparr>),
          snaplexX = snaplexX st + SNAPLEX_WIDTH + 30,
          maxX = maxX1,
          maxY = maxY1\<rparr>)"

text \<open>The variables of \<^verbatim>\<open>autoLayout\<close> that the \<^verbatim>\<open>environments.forEach\<close> callback updates.\<close>

record layoutState =
  ls_positions :: positionMap
  ls_envDimensions :: dimensionMap
  currentX :: num
  currentY :: num
  rowStartY :: num
  maxRowHeight :: num

definition layoutEnvironment :: "nat \<Rightarrow> layoutState \<Rightarrow> Environment \<Rightarrow> layoutState" where
  "layoutEnvironment index st env =
     (let positions1 = (ls_positions st)
            (envKey (env_id env) \<mapsto> \<lparr>pos_x = currentX st, pos_y = currentY st\<rparr>);
          sl = foldl (layoutSnaplex (currentY st + 80))
                 \<lparr>sl_positions = positions1, sl_envDimensions = ls_envDimensions st,
                  snaplexX = currentX st + SNAPLEX_MARGIN, maxX = currentX st,
                  maxY = currentY st + 80\<rparr>
                 (snaplexes env);
          actualWidth = max ENV_WIDTH (maxX sl - currentX st + SNAPLEX_MARGIN);
          actualHeight = max ENV_HEIGHT (maxY sl - currentY st + 30);
          envDimensions1 = (sl_envDimensions sl)
            (envKey (env_id env) \<mapsto> \<lparr>dim_width = actualWidth, dim_height = actualHeight\<rparr>);
          maxRowHeight1 = max (maxRowHeight st) actualHeight;
          currentX1 = currentX st + actualWidth + 50
      in if (index + 1) mod 2 = 0
         then \<lparr>ls_positions = sl_positions sl, ls_envDimensions = envDimensions1,
               currentX = 50,
               currentY = rowStartY st + maxRowHeight1 + 100,
               rowStartY = rowStartY st + maxRowHeight1 + 100,
               maxRowHeight = 0\<rparr>
         else \<lparr>ls_positions = sl_positions sl, ls_envDimensions = envDimensions1,
               currentX = currentX1,
               currentY = currentY st,
               rowStartY = rowStartY st,
               maxRowHeight = maxRowHeight1\<rparr>)"

fun layoutEnvironments :: "nat \<Rightarrow> Environment list \<Rightarrow> layoutState \<Rightarrow> layoutState" where
  "layoutEnvironments index [] st = st"
| "layoutEnvironments index (env # rest) st =
     layoutEnvironments (Suc index) rest (layoutEnvironment index st env)"

fun layoutEndpoints :: "num \<Rightarrow> num \<Rightarrow> nat \<Rightarrow> Endpoint list \<Rightarrow> positionMap \<Rightarrow> positionMap" where
  "layoutEndpoints endpointStartX y index [] posMap = posMap"
| "layoutEndpoints endpointStartX y index (endpoint # rest) posMap =
     layoutEndpoints endpointStartX y (Suc index) rest
       (posMap(endpointKey (endpoint_id endpoint) \<mapsto>
          \<lparr>pos_x = endpointStartX + of_nat index * 200, pos_y = y\<rparr>))"

record layoutResult =
  positions :: positionMap
  envDimensions :: dimensionMap

definition autoLayout :: "Environment list \<Rightarrow> Endpoint list \<Rightarrow> layoutResult" where
  "autoLayout environments endpoints =
     (let st = layoutEnvironments 0 environments
                 \<lparr>ls_positions = Map.empty, ls_envDimensions = Map.empty,
                  currentX = 50, currentY = 50, rowStartY = 50, maxRowHeight = 0\<rparr>;
          currentY1 = (if length environments mod 2 = 1
                       then rowStartY st + maxRowHeight st + 100 else currentY st);
          currentY2 = currentY1 + 50
      in \<lparr>positions = layoutEndpoints 50 currentY2 0 endpoints (ls_positions st),
          envDimensions = ls_envDimensions st\<rparr>)"

section \<open>Scene elements and the ambient state of the modules\<close>

text \<open>
  An element of the scene. The fields every element literal of the sources sets to the
  same constant (\<^verbatim>\<open>frameId: null\<close>, \<^verbatim>\<open>boundElements: null\<close>, \<^verbatim>\<open>link: null\<close>,
  \<^verbatim>\<open>locked: false\<close>, \<^verbatim>\<open>containerId: null\<close>) are left out. An identifier is either a
  string the code builds from the model, or the string
  \<^verbatim>\<open>Math.random().toString(36).substr(2, 9)\<close> of one random draw, kept as that draw.
  The order key \<^verbatim>\<open>index\<close> is either the string of the counter-based \<^verbatim>\<open>generateIndex\<close>
  of excalidrawHelpers.ts, or the clock value and random draw of the local
  \<^verbatim>\<open>generateIndex\<close> of \<^verbatim>\<open>createNodeIndicators\<close>.
\<close>

datatype ident = Id string | RandomId rat

datatype orderKey = IndexKey string | StampKey int rat

record TextProps =
  tp_text :: string
  fontSize :: num
  fontFamily :: num
  textAlign :: string
  verticalAlign :: string
  originalText :: string
  autoResize :: bool
  lineHeight :: num

record ArrowProps =
  startBinding :: string
  endBinding :: string
  startArrowhead :: "string option"
  endArrowhead :: "string option"
  points :: "(num \<times> num) list"
  elbowed :: bool

record ExcalidrawElement =
  el_id :: ident
  el_type :: string
  el_x :: num
  el_y :: num
  el_width :: num
  el_height :: num
  angle :: num
  strokeColor :: string
  backgroundColor :: string
  fillStyle :: string
  strokeWidth :: num
  strokeStyle :: string
  roughness :: num
  opacity :: num
  groupIds :: "string list"
  el_index :: orderKey
  roundness :: "nat option"
  seed :: int
  versionNonce :: int
  isDeleted :: bool
  updated :: int
  textProps :: "TextProps option"
  arrowProps :: "ArrowProps option"

datatype SnapLogicShapeType =
    GROUNDPLEX | CLOUDPLEX | JCC_NODE | FM_NODE | API_GATEWAY | LOAD_BALANCER
  | ULTRA_PIPELINE | ENDPOINT | ZONE

text \<open>
  A library item as \<^verbatim>\<open>JSON.parse\<close> delivers it: \<^verbatim>\<open>loadLibrary\<close> checks only the
  \<^verbatim>\<open>type\<close> tag of the file, so the \<^verbatim>\<open>elements\<close> property of an item may be absent
  (\<open>None\<close>), and reading its \<^verbatim>\<open>length\<close> then throws a TypeError.
\<close>

record LibraryItem =
  item_id :: string
  item_name :: "string option"
  item_elements :: "ExcalidrawElement list option"

datatype exn = TypeError

type_synonym cacheKey = "SnapLogicShapeType \<times> num \<times> num"

text \<open>
  The state the modules keep between calls, and the store the application reads:
  \<^item> \<open>environments\<close>, \<open>endpoints\<close>, \<open>connections\<close>: the architecture store;
  \<^item> \<open>counter\<close>: the closure variable of \<^verbatim>\<open>generateIndex\<close> in excalidrawHelpers.ts;
  \<^item> \<open>randomSource\<close>, \<open>randomCalls\<close>: the results of the successive calls of
    \<^verbatim>\<open>Math.random()\<close> and how many were made; \<open>clockSource\<close>, \<open>clockCalls\<close>: the same
    for \<^verbatim>\<open>Date.now()\<close>;
  \<^item> \<open>isLoaded\<close>, \<open>libraryCache\<close>: the fields of \<^verbatim>\<open>LibraryLoaderService\<close>; the cache key
    \<^verbatim>\<open>`${type}-${x}-${y}`\<close> is kept as the triple it is built from;
  \<^item> \<open>libraryItems\<close>: the index of \<^verbatim>\<open>LibraryManager\<close>;
  \<^item> \<open>useLibraryShapes\<close>: the field of \<^verbatim>\<open>ShapeFactory\<close>.
\<close>

record appState =
  environments :: "Environment list"
  endpoints :: "Endpoint list"
  connections :: "Connection list"
  counter :: nat
  randomSource :: "nat \<Rightarrow> rat"
  randomCalls :: nat
  clockSource :: "nat \<Rightarrow> int"
  clockCalls :: nat
  isLoaded :: bool
  libraryCache :: "cacheKey \<rightharpoonup> ExcalidrawElement list"
  libraryItems :: "SnapLogicShapeType \<rightharpoonup> LibraryItem"
  useLibraryShapes :: bool

definition Math_random :: "appState \<Rightarrow> rat \<times> appState" where
  "Math_random s = (randomSource s (randomCalls s), s\<lparr>randomCalls := Suc (randomCalls s)\<rparr>)"

definition Date_now :: "appState \<Rightarrow> int \<times> appState" where
  "Date_now s = (clockSource s (clockCalls s), s\<lparr>clockCalls := Suc (clockCalls s)\<rparr>)"

text \<open>\<^verbatim>\<open>Math.floor(Math.random() * 2000000000)\<close>\<close>

definition randomSeed :: "appState \<Rightarrow> int \<times> appState" where
  "randomSeed s = (let (r, s1) = Math_random s in (\<lfloor>r * 2000000000\<rfloor>, s1))"

fun showNat :: "nat \<Rightarrow> string" where
  "showNat n =
     (if n < 10 then [''0123456789'' ! n]
      else showNat (n div 10) @ [''0123456789'' ! (n mod 10)])"

declare showNat.simps [simp del]

definition generateIndex :: "appState \<Rightarrow> orderKey \<times> appState" where
  "generateIndex s =
     (let base = counter s div 2;
          suffix = (if counter s mod 2 = 0 then ''V'' else '''')
      in (IndexKey (''a'' @ showNat base @ suffix), s\<lparr>counter := Suc (counter s)\<rparr>))"

text \<open>
  The four property initialisers with an effect that every element literal of
  excalidrawHelpers.ts has, in the order the literal evaluates them:
  \<^verbatim>\<open>index: generateIndex()\<close>, \<^verbatim>\<open>seed\<close>, \<^verbatim>\<open>versionNonce\<close>, \<^verbatim>\<open>updated: Date.now()\<close>.
\<close>

record stamp =
  st_index :: orderKey
  st_seed :: int
  st_versionNonce :: int
  st_updated :: int

definition newStamp :: "appState \<Rightarrow> stamp \<times> appState" where
  "newStamp s =
     (let (i, s1) = generateIndex s;
          (sd, s2) = randomSeed s1;
          (vn, s3) = randomSeed s2;
          (u, s4) = Date_now s3
      in (\<lparr>st_index = i, st_seed = sd, st_versionNonce = vn, st_updated = u\<rparr>, s4))"

section \<open>Basic shapes (src/utils/excalidrawHelpers.ts)\<close>

fun environmentTypeName :: "EnvironmentType \<Rightarrow> string" where
  "environmentTypeName production = ''production''"
| "environmentTypeName staging = ''staging''"
| "environmentTypeName development = ''development''"
| "environmentTypeName sandbox = ''sandbox''"

fun nodeSizeName :: "NodeSize \<Rightarrow> string" where
  "nodeSizeName medium = ''medium''"
| "nodeSizeName size_L = ''L''"
| "nodeSizeName size_XL = ''XL''"
| "nodeSizeName size_2XL = ''2XL''"

fun COLORS_environment :: "EnvironmentType \<Rightarrow> string" where
  "COLORS_environment production = ''#dc2626''"
| "COLORS_environment staging = ''#f59e0b''"
| "COLORS_environment development = ''#3b82f6''"
| "COLORS_environment sandbox = ''#8b5cf6''"

fun COLORS_snaplex :: "SnaplexType \<Rightarrow> string" where
  "COLORS_snaplex cloudplex = ''#10b981''"
| "COLORS_snaplex groundplex = ''#6366f1''"

abbreviation COLORS_node :: string where "COLORS_node \<equiv> ''#64748b''"

text \<open>\<^verbatim>\<open>COLORS.endpoint[endpoint.type] || '#000000'\<close>: the table has no entry for soap.\<close>

fun COLORS_endpoint :: "EndpointType \<Rightarrow> string" where
  "COLORS_endpoint ep_rest = ''#3b82f6''"
| "COLORS_endpoint ep_database = ''#f59e0b''"
| "COLORS_endpoint ep_file = ''#8b5cf6''"
| "COLORS_endpoint ep_kafka = ''#dc2626''"
| "COLORS_endpoint ep_sqs = ''#f97316''"
| "COLORS_endpoint ep_mqtt = ''#14b8a6''"
| "COLORS_endpoint ep_soap = ''#000000''"

definition shapeElement ::
  "ident \<Rightarrow> string \<Rightarrow> num \<Rightarrow> num \<Rightarrow> num \<Rightarrow> num \<Rightarrow> string \<Rightarrow> string \<Rightarrow> string \<Rightarrow> num
     \<Rightarrow> string \<Rightarrow> num \<Rightarrow> string list \<Rightarrow> nat option \<Rightarrow> stamp \<Rightarrow> ExcalidrawElement" where
  "shapeElement i ty x y w h stroke bg fill sw sstyle rough groups rnd m =
     \<lparr>el_id = i, el_type = ty, el_x = x, el_y = y, el_width = w, el_height = h, angle = 0,
      strokeColor = stroke, backgroundColor = bg, fillStyle = fill, strokeWidth = sw,
      strokeStyle = sstyle, roughness = rough, opacity = 100, groupIds = groups,
      el_index = st_index m, roundness = rnd, seed = st_seed m,
      versionNonce = st_versionNonce m, isDeleted = False, updated = st_updated m,
      textProps = None, arrowProps = None\<rparr>"

definition createEnvironmentElement ::
  "Environment \<Rightarrow> num \<Rightarrow> num \<Rightarrow> num \<Rightarrow> num \<Rightarrow> appState \<Rightarrow> ExcalidrawElement list \<times> appState" where
  "createEnvironmentElement env x y width height s =
     (let (m1, s1) = newStamp s;
          background = shapeElement (Id (''env-'' @ env_id env)) ''rectangle'' x y width height
            (COLORS_environment (env_type env)) ''transparent'' ''hachure'' 2 ''solid'' 1
            [''group-'' @ env_id env] (Some 3) m1;
          (m2, s2) = newStamp s1;
          labelText = env_name env @ '' ('' @ environmentTypeName (env_type env) @ '')'';
          label = (shapeElement (Id (''label-'' @ env_id env)) ''text'' (x + 10) (y + 10) 200 25
            (COLORS_environment (env_type env)) ''transparent'' ''hachure'' 1 ''solid'' 0
            [''group-'' @ env_id env] None m2)
            \<lparr>textProps := Some \<lparr>tp_text = labelText, fontSize = 20, fontFamily = 1,
               textAlign = ''left'', verticalAlign = ''top'', originalText = labelText,
               autoResize = True, lineHeight = 5 / 4\<rparr>\<rparr>
      in ([background, label], s2))"

definition createSnaplexElement ::
  "Snaplex \<Rightarrow> num \<Rightarrow> num \<Rightarrow> num \<Rightarrow> num \<Rightarrow> appState \<Rightarrow> ExcalidrawElement list \<times> appState" where
  "createSnaplexElement snaplex x y width height s =
     (let (m1, s1) = newStamp s;
          box = shapeElement (Id (''snaplex-'' @ snaplex_id snaplex)) ''rectangle'' x y width height
            (COLORS_snaplex (snaplex_type snaplex)) (COLORS_snaplex (snaplex_type snaplex) @ ''20'')
            ''solid'' 2 ''solid'' 1 [''group-snaplex-'' @ snaplex_id snaplex] (Some 3) m1;
          (m2, s2) = newStamp s1;
          label = (shapeElement (Id (''label-snaplex-'' @ snaplex_id snaplex)) ''text''
            (x + width / 2 - 40) (y + 5) 80 20
            ''#000000'' ''transparent'' ''hachure'' 1 ''solid'' 0
            [''group-snaplex-'' @ snaplex_id snaplex] None m2)
            \<lparr>textProps := Some \<lparr>tp_text = snaplex_name snaplex, fontSize = 16, fontFamily = 1,
               textAlign = ''center'', verticalAlign = ''middle'',
               originalText = snaplex_name snaplex, autoResize = True, lineHeight = 5 / 4\<rparr>\<rparr>
      in ([box, label], s2))"

text \<open>\<^verbatim>\<open>sizeMultipliers[node.size] || 1\<close>\<close>

fun sizeMultipliers :: "NodeSize \<Rightarrow> num" where
  "sizeMultipliers medium = 1"
| "sizeMultipliers size_L = 12 / 10"
| "sizeMultipliers size_XL = 14 / 10"
| "sizeMultipliers size_2XL = 16 / 10"

definition nodeStatusColor :: "NodeStatus \<Rightarrow> string" where
  "nodeStatusColor status =
     (if status = running then ''#10b981'' else if status = error then ''#dc2626'' else ''#fbbf24'')"

definition createNodeElement ::
  "ExecutionNode \<Rightarrow> num \<Rightarrow> num \<Rightarrow> num \<Rightarrow> appState \<Rightarrow> ExcalidrawElement list \<times> appState" where
  "createNodeElement node x y sz s =
     (let actualSize = sz * sizeMultipliers (node_size node);
          (m1, s1) = newStamp s;
          circle = shapeElement (Id (''node-'' @ node_id node)) ''ellipse'' x y actualSize actualSize
            COLORS_node (nodeStatusColor (node_status node)) ''solid'' 2 ''solid'' 1
            [''group-node-'' @ node_id node] (Some 2) m1;
          sizeIndicator = (if node_size node \<noteq> medium
                           then '' ('' @ nodeSizeName (node_size node) @ '')'' else '''');
          moIndicator = (if memoryOptimized node \<and> node_type node = JCC then '' MO'' else '''');
          labelText = node_name node @ sizeIndicator @ moIndicator;
          (m2, s2) = newStamp s1;
          label = (shapeElement (Id (''label-node-'' @ node_id node)) ''text''
            (x - 25) (y + actualSize + 5) (actualSize + 50) 15
            ''#000000'' ''transparent'' ''hachure'' 1 ''solid'' 0
            [''group-node-'' @ node_id node] None m2)
            \<lparr>textProps := Some \<lparr>tp_text = labelText, fontSize = 12, fontFamily = 1,
               textAlign = ''center'', verticalAlign = ''top'', originalText = labelText,
               autoResize = True, lineHeight = 5 / 4\<rparr>\<rparr>
      in ([circle, label], s2))"

definition createEndpointElement ::
  "Endpoint \<Rightarrow> num \<Rightarrow> num \<Rightarrow> num \<Rightarrow> num \<Rightarrow> appState \<Rightarrow> ExcalidrawElement list \<times> appState" where
  "createEndpointElement endpoint x y width height s =
     (let color = COLORS_endpoint (endpoint_type endpoint);
          (m1, s1) = newStamp s;
          shape = shapeElement (Id (''endpoint-'' @ endpoint_id endpoint)) ''diamond'' x y width height
            color (color @ ''20'') ''solid'' 2 ''solid'' 1
            [''group-endpoint-'' @ endpoint_id endpoint] (Some 2) m1;
          (m2, s2) = newStamp s1;
          label = (shapeElement (Id (''label-endpoint-'' @ endpoint_id endpoint)) ''text''
            (x + width / 2 - 30) (y + height / 2 - 10) 60 20
            ''#000000'' ''transparent'' ''hachure'' 1 ''solid'' 0
            [''group-endpoint-'' @ endpoint_id endpoint] None m2)
            \<lparr>textProps := Some \<lparr>tp_text = endpoint_name endpoint, fontSize = 14, fontFamily = 1,
               textAlign = ''center'', verticalAlign = ''middle'',
               originalText = endpoint_name endpoint, autoResize = True, lineHeight = 5 / 4\<rparr>\<rparr>
      in ([shape, label], s2))"

definition createSnaplexContainer ::
  "Snaplex \<Rightarrow> num \<Rightarrow> num \<Rightarrow> num \<Rightarrow> num \<Rightarrow> appState \<Rightarrow> ExcalidrawElement \<times> appState" where
  "createSnaplexContainer snaplex x y width height s =
     (let (m, s1) = newStamp s
      in (shapeElement (Id (''container-'' @ snaplex_id snaplex)) ''rectangle'' x y width height
            ''#000000'' ''transparent'' ''hachure'' 2 ''dashed'' 1
            [''group-snaplex-'' @ snaplex_id snaplex] (Some 3) m, s1))"

definition createConnectionElement ::
  "Connection \<Rightarrow> num \<Rightarrow> num \<Rightarrow> num \<Rightarrow> num \<Rightarrow> appState \<Rightarrow> ExcalidrawElement \<times> appState" where
  "createConnectionElement connection startX startY endX endY s =
     (let (m, s1) = newStamp s
      in ((shapeElement (Id (''connection-'' @ conn_id connection)) ''arrow'' startX startY
             (endX - startX) (endY - startY)
             (if conn_type connection = data_flow then ''#3b82f6'' else ''#6b7280'')
             ''transparent'' ''hachure'' 2
             (if conn_type connection = dependency then ''dashed'' else ''solid'') 1
             [] (Some 2) m)
            \<lparr>arrowProps := Some \<lparr>startBinding = source connection, endBinding = target connection,
               startArrowhead = None, endArrowhead = Some ''arrow'',
               points = [(0, 0), (endX - startX, endY - startY)], elbowed = False\<rparr>\<rparr>, s1))"

section \<open>The shape library (\<^verbatim>\<open>LibraryManager\<close>, \<^verbatim>\<open>LibraryLoaderService\<close>)\<close>

text \<open>
  The callback of \<^verbatim>\<open>elements.map\<close> in \<^verbatim>\<open>cloneLibraryItem\<close>, applied from the first element
  to the last: a fresh identifier, the position moved, two fresh seeds and the clock.
  \<^verbatim>\<open>element.x || 0\<close> is \<open>el_x element\<close>, since the field is a number here.
\<close>

fun cloneElements ::
  "num \<Rightarrow> num \<Rightarrow> num \<Rightarrow> num \<Rightarrow> ExcalidrawElement list \<Rightarrow> appState
     \<Rightarrow> ExcalidrawElement list \<times> appState" where
  "cloneElements x y minX minY [] s = ([], s)"
| "cloneElements x y minX minY (element # rest) s =
     (let (r, s1) = Math_random s;
          (sd, s2) = randomSeed s1;
          (vn, s3) = randomSeed s2;
          (u, s4) = Date_now s3;
          cloned = element\<lparr>el_id := RandomId r,
                     el_x := x + el_x element - minX,
                     el_y := y + el_y element - minY,
                     seed := sd, versionNonce := vn, updated := u, isDeleted := False\<rparr>;
          (clonedRest, s5) = cloneElements x y minX minY rest s4
      in (cloned # clonedRest, s5))"

definition cloneLibraryItem ::
  "SnapLogicShapeType \<Rightarrow> num \<Rightarrow> num \<Rightarrow> appState \<Rightarrow> (exn + ExcalidrawElement list) \<times> appState" where
  "cloneLibraryItem ty x y s =
     (case libraryItems s ty of
        None \<Rightarrow> (Inr [], s)
      | Some libraryItem \<Rightarrow>
          (case item_elements libraryItem of
             None \<Rightarrow> (Inl TypeError, s)
           | Some elements \<Rightarrow>
               if length elements = 0 then (Inr [], s)
               else
                 (let minX = Min (set (map el_x elements));
                      minY = Min (set (map el_y elements));
                      (cloned, s1) = cloneElements x y minX minY elements s
                  in (Inr cloned, s1))))"

definition getShape ::
  "SnapLogicShapeType \<Rightarrow> num \<Rightarrow> num \<Rightarrow> appState \<Rightarrow> (exn + ExcalidrawElement list) \<times> appState" where
  "getShape ty x y s =
     (if \<not> isLoaded s then (Inr [], s)
      else
        (case libraryCache s (ty, x, y) of
           Some cached \<Rightarrow> (Inr cached, s)
         | None \<Rightarrow>
             (case cloneLibraryItem ty x y s of
                (Inl e, s1) \<Rightarrow> (Inl e, s1)
              | (Inr elements, s1) \<Rightarrow>
                  (Inr elements, s1\<lparr>libraryCache := (libraryCache s1)((ty, x, y) \<mapsto> elements)\<rparr>))))"

definition clearCache :: "appState \<Rightarrow> appState" where
  "clearCache s = s\<lparr>libraryCache := Map.empty\<rparr>"

section \<open>The shape factory (src/utils/shapeFactory.ts, the version with node indicators)\<close>

definition checkLibraryAvailability :: "appState \<Rightarrow> appState" where
  "checkLibraryAvailability s = s\<lparr>useLibraryShapes := isLoaded s\<rparr>"

text \<open>\<^verbatim>\<open>width || 350\<close>: the default replaces an absent argument and the number 0.\<close>

definition orDefault :: "num option \<Rightarrow> num \<Rightarrow> num" where
  "orDefault v d = (case v of None \<Rightarrow> d | Some n \<Rightarrow> if n = 0 then d else n)"

text \<open>The constant \<^verbatim>\<open>shapeType\<close> of \<^verbatim>\<open>createSnaplex\<close> and of \<^verbatim>\<open>createExecutionNode\<close>.\<close>

definition snaplexShapeType :: "Snaplex \<Rightarrow> SnapLogicShapeType" where
  "snaplexShapeType snaplex = (if snaplex_type snaplex = cloudplex then CLOUDPLEX else GROUNDPLEX)"

definition nodeShapeType :: "ExecutionNode \<Rightarrow> SnapLogicShapeType" where
  "nodeShapeType node = (if node_type node = JCC then JCC_NODE else FM_NODE)"

definition createSnaplex ::
  "Snaplex \<Rightarrow> num \<Rightarrow> num \<Rightarrow> num option \<Rightarrow> num option \<Rightarrow> appState
     \<Rightarrow> ExcalidrawElement list \<times> appState" where
  "createSnaplex snaplex x y width height s0 =
     (let s = checkLibraryAvailability s0;
          fallback = createSnaplexElement snaplex x y (orDefault width 350) (orDefault height 200)
      in if useLibraryShapes s
         then
           (case getShape (snaplexShapeType snaplex) x y s of
              (Inr elements, s1) \<Rightarrow>
                if length elements > 0 then (elements, s1) else fallback s1
            | (Inl caught, s1) \<Rightarrow> fallback s1)
         else fallback s)"

definition indicatorText :: "ExecutionNode \<Rightarrow> string" where
  "indicatorText node =
     (if memoryOptimized node \<and> node_type node = JCC
      then (if node_size node \<noteq> medium then ''mo-'' @ nodeSizeName (node_size node) else ''mo'')
      else if node_size node \<noteq> medium then nodeSizeName (node_size node)
      else '''')"

text \<open>
  The local \<^verbatim>\<open>generateIndex\<close> of \<^verbatim>\<open>createNodeIndicators\<close> reads the clock and draws a
  random number; the seeds and \<^verbatim>\<open>updated\<close> follow as in every element literal.
\<close>

definition indicatorStamp :: "appState \<Rightarrow> stamp \<times> appState" where
  "indicatorStamp s =
     (let (t, s1) = Date_now s;
          (r, s2) = Math_random s1;
          (sd, s3) = randomSeed s2;
          (vn, s4) = randomSeed s3;
          (u, s5) = Date_now s4
      in (\<lparr>st_index = StampKey t r, st_seed = sd, st_versionNonce = vn, st_updated = u\<rparr>, s5))"

definition createNodeIndicators ::
  "ExecutionNode \<Rightarrow> num \<Rightarrow> num \<Rightarrow> appState \<Rightarrow> ExcalidrawElement list \<times> appState" where
  "createNodeIndicators node x y s =
     (let hasIndicator =
            (node_size node \<noteq> medium \<or> (memoryOptimized node \<and> node_type node = JCC))
      in if hasIndicator
         then
           (let indicatorWidth = max 30 (of_nat (length (indicatorText node)) * 8 + 12);
                indicatorHeight = 25;
                indicatorX = x + 5;
                indicatorY = y + 37;
                (m1, s1) = indicatorStamp s;
                bg = shapeElement (Id (''indicator-bg-'' @ node_id node)) ''rectangle''
                  indicatorX indicatorY indicatorWidth indicatorHeight
                  ''#000000'' ''#ffffff'' ''solid'' 1 ''solid'' 0
                  [''group-node-'' @ node_id node] (Some 3) m1;
                (m2, s2) = indicatorStamp s1;
                label = (shapeElement (Id (''indicator-text-'' @ node_id node)) ''text''
                  (indicatorX + 6) (indicatorY + 6) (indicatorWidth - 12) 15
                  (if memoryOptimized node \<and> node_type node = JCC then ''#10b981'' else ''#3b82f6'')
                  ''transparent'' ''solid'' 1 ''solid'' 0
                  [''group-node-'' @ node_id node] None m2)
                  \<lparr>textProps := Some \<lparr>tp_text = indicatorText node, fontSize = 12,
                     fontFamily = 4, textAlign = ''center'', verticalAlign = ''middle'',
                     originalText = indicatorText node, autoResize = False,
                     lineHeight = 5 / 4\<rparr>\<rparr>
            in ([bg, label], s2))
         else ([], s))"

definition createExecutionNode ::
  "ExecutionNode \<Rightarrow> num \<Rightarrow> num \<Rightarrow> appState \<Rightarrow> ExcalidrawElement list \<times> appState" where
  "createExecutionNode node x y s0 =
     (let s = checkLibraryAvailability s0;
          fallback = createNodeElement node x y 40
      in if useLibraryShapes s
         then
           (case getShape (nodeShapeType node) x y s of
              (Inr elements, s1) \<Rightarrow>
                if length elements > 0
                then (let (indicators, s2) = createNodeIndicators node x y s1
                      in (elements @ indicators, s2))
                else fallback s1
            | (Inl caught, s1) \<Rightarrow> fallback s1)
         else fallback s)"

definition createEndpoint ::
  "Endpoint \<Rightarrow> num \<Rightarrow> num \<Rightarrow> appState \<Rightarrow> ExcalidrawElement list \<times> appState" where
  "createEndpoint endpoint x y s = createEndpointElement endpoint x y 120 60 s"

section \<open>The scene of a model (\<^verbatim>\<open>generateExcalidrawElements\<close> in the application)\<close>

text \<open>\<^verbatim>\<open>positions.get(key) || { x: dx, y: dy }\<close> and the same for the dimensions.\<close>

definition positionOr :: "positionMap \<Rightarrow> string \<Rightarrow> num \<Rightarrow> num \<Rightarrow> Point" where
  "positionOr posMap key dx dy =
     (case posMap key of Some p \<Rightarrow> p | None \<Rightarrow> \<lparr>pos_x = dx, pos_y = dy\<rparr>)"

definition dimensionOr :: "dimensionMap \<Rightarrow> string \<Rightarrow> num \<Rightarrow> num \<Rightarrow> Size" where
  "dimensionOr dimMap key dw dh =
     (case dimMap key of Some d \<Rightarrow> d | None \<Rightarrow> \<lparr>dim_width = dw, dim_height = dh\<rparr>)"

fun nodeElements ::
  "positionMap \<Rightarrow> ExecutionNode list \<Rightarrow> appState \<Rightarrow> ExcalidrawElement list \<times> appState" where
  "nodeElements posMap [] s = ([], s)"
| "nodeElements posMap (node # rest) s =
     (let nPos = positionOr posMap (nodeKey (node_id node)) 150 150;
          (shape, s1) = createExecutionNode node (pos_x nPos) (pos_y nPos) s;
          (more, s2) = nodeElements posMap rest s1
      in (shape @ more, s2))"

fun snaplexElements ::
  "layoutResult \<Rightarrow> Snaplex list \<Rightarrow> appState \<Rightarrow> ExcalidrawElement list \<times> appState" where
  "snaplexElements layout [] s = ([], s)"
| "snaplexElements layout (snaplex # rest) s =
     (let sPos = positionOr (positions layout) (snaplexKey (snaplex_id snaplex)) 100 100;
          sDims = dimensionOr (envDimensions layout) (snaplexKey (snaplex_id snaplex)) 450 300;
          (header, s1) = createSnaplex snaplex (pos_x sPos + 30) (pos_y sPos + 30)
                           (Some (dim_width sDims)) (Some (dim_height sDims)) s;
          (outline, s2) = createSnaplexContainer snaplex (pos_x sPos) (pos_y sPos)
                            (dim_width sDims) (dim_height sDims) s1;
          (nodeShapes, s3) = nodeElements (positions layout) (nodes (container snaplex)) s2;
          (more, s4) = snaplexElements layout rest s3
      in (header @ [outline] @ nodeShapes @ more, s4))"

fun environmentElements ::
  "layoutResult \<Rightarrow> Environment list \<Rightarrow> appState \<Rightarrow> ExcalidrawElement list \<times> appState" where
  "environmentElements layout [] s = ([], s)"
| "environmentElements layout (env # rest) s =
     (let pos = positionOr (positions layout) (envKey (env_id env)) 50 50;
          dims = dimensionOr (envDimensions layout) (envKey (env_id env)) 1200 500;
          (frame, s1) = createEnvironmentElement env (pos_x pos) (pos_y pos)
                          (dim_width dims) (dim_height dims) s;
          (inner, s2) = snaplexElements layout (snaplexes env) s1;
          (more, s3) = environmentElements layout rest s2
      in (frame @ inner @ more, s3))"

fun endpointElements ::
  "positionMap \<Rightarrow> Endpoint list \<Rightarrow> appState \<Rightarrow> ExcalidrawElement list \<times> appState" where
  "endpointElements posMap [] s = ([], s)"
| "endpointElements posMap (endpoint # rest) s =
     (let pos = positionOr posMap (endpointKey (endpoint_id endpoint)) 50 400;
          (shape, s1) = createEndpoint endpoint (pos_x pos) (pos_y pos) s;
          (more, s2) = endpointElements posMap rest s1
      in (shape @ more, s2))"

text \<open>
  The callback of \<^verbatim>\<open>connections.forEach\<close>: both ends are looked up under the raw
  \<^verbatim>\<open>conn.source\<close> and \<^verbatim>\<open>conn.target\<close>, with the defaults (0, 0) and (100, 100).
\<close>

definition resolveConnection ::
  "positionMap \<Rightarrow> Connection \<Rightarrow> appState \<Rightarrow> ExcalidrawElement \<times> appState" where
  "resolveConnection posMap conn s =
     (let sourcePos = positionOr posMap (source conn) 0 0;
          targetPos = positionOr posMap (target conn) 100 100
      in createConnectionElement conn (pos_x sourcePos) (pos_y sourcePos)
           (pos_x targetPos) (pos_y targetPos) s)"

fun connectionElements ::
  "positionMap \<Rightarrow> Connection list \<Rightarrow> appState \<Rightarrow> ExcalidrawElement list \<times> appState" where
  "connectionElements posMap [] s = ([], s)"
| "connectionElements posMap (conn # rest) s =
     (let (arrow, s1) = resolveConnection posMap conn s;
          (more, s2) = connectionElements posMap rest s1
      in (arrow # more, s2))"

definition generateExcalidrawElements :: "appState \<Rightarrow> ExcalidrawElement list \<times> appState" where
  "generateExcalidrawElements s =
     (let layout = autoLayout (environments s) (endpoints s);
          (envShapes, s1) = environmentElements layout (environments s) s;
          (endpointShapes, s2) = endpointElements (positions layout) (endpoints s1) s1;
          (arrows, s3) = connectionElements (positions layout) (connections s2) s2
      in (envShapes @ endpointShapes @ arrows, s3))"

section \<open>Text flow (\<^verbatim>\<open>TextUtils\<close> in src/utils/documentationGenerator.ts)\<close>

text \<open>
  \<^verbatim>\<open>String.prototype.split\<close> with a one-character separator: the pieces between the
  separators, so a string with \<open>k\<close> separators has \<open>k + 1\<close> pieces and the empty string
  has the one piece \<^verbatim>\<open>''\<close>. \<^verbatim>\<open>Array.prototype.join\<close> puts the separator between the
  pieces.
\<close>

fun split :: "char \<Rightarrow> string \<Rightarrow> string list" where
  "split c [] = [Nil]"
| "split c (x # xs) =
     (if x = c then [] # split c xs
      else (case split c xs of
              [] \<Rightarrow> [x # Nil]
            | piece # pieces \<Rightarrow> (x # piece) # pieces))"

fun join :: "string \<Rightarrow> string list \<Rightarrow> string" where
  "join sep [] = []"
| "join sep [piece] = piece"
| "join sep (piece # next # pieces) = piece @ sep @ join sep (next # pieces)"

abbreviation newline :: char where "newline \<equiv> CHR ''\<newline>''"
abbreviation space :: char where "space \<equiv> CHR '' ''"

text \<open>
  The \<^verbatim>\<open>for (const word of words)\<close> loop of \<^verbatim>\<open>wrapLine\<close> with its two variables, and
  the push of the last line after it. \<^verbatim>\<open>word.substring(0, maxCharsPerLine - 3)\<close> takes
  no character when the bound is negative.
\<close>

fun wrapWords :: "int \<Rightarrow> string list \<Rightarrow> string list \<Rightarrow> string \<Rightarrow> string list" where
  "wrapWords maxCharsPerLine [] wrappedLines currentLine =
     (if currentLine \<noteq> [] then wrappedLines @ [currentLine] else wrappedLines)"
| "wrapWords maxCharsPerLine (word # rest) wrappedLines currentLine =
     (let testLine = (if currentLine = [] then word else currentLine @ '' '' @ word)
      in if int (length testLine) \<le> maxCharsPerLine
         then wrapWords maxCharsPerLine rest wrappedLines testLine
         else if currentLine \<noteq> []
         then wrapWords maxCharsPerLine rest (wrappedLines @ [currentLine]) word
         else wrapWords maxCharsPerLine rest
                (wrappedLines @ [take (nat (maxCharsPerLine - 3)) word @ ''...'']) [])"

definition wrapLine :: "string \<Rightarrow> int \<Rightarrow> string list" where
  "wrapLine line maxCharsPerLine =
     (if int (length line) \<le> maxCharsPerLine then [line]
      else wrapWords maxCharsPerLine (split space line) [] [])"

record chunkState =
  chunks :: "string list"
  currentChunk :: "string list"
  currentChunkLines :: nat

text \<open>The test \<^verbatim>\<open>if (currentChunkLines >= maxLinesPerChunk)\<close> with its three assignments.\<close>

definition flushIfFull :: "int \<Rightarrow> chunkState \<Rightarrow> chunkState" where
  "flushIfFull maxLinesPerChunk st =
     (if int (currentChunkLines st) \<ge> maxLinesPerChunk
      then \<lparr>chunks = chunks st @ [join [newline] (currentChunk st)],
            currentChunk = [], currentChunkLines = 0\<rparr>
      else st)"

definition pushLine :: "chunkState \<Rightarrow> string \<Rightarrow> chunkState" where
  "pushLine st line =
     st\<lparr>currentChunk := currentChunk st @ [line],
        currentChunkLines := Suc (currentChunkLines st)\<rparr>"

text \<open>The inner loop \<^verbatim>\<open>for (const wrappedLine of wrappedLines)\<close>.\<close>

fun pushWrapped :: "int \<Rightarrow> string list \<Rightarrow> chunkState \<Rightarrow> chunkState" where
  "pushWrapped maxLinesPerChunk [] st = st"
| "pushWrapped maxLinesPerChunk (wrappedLine # rest) st =
     pushWrapped maxLinesPerChunk rest (flushIfFull maxLinesPerChunk (pushLine st wrappedLine))"

text \<open>The body of the outer loop \<^verbatim>\<open>for (const line of lines)\<close>.\<close>

definition chunkLine :: "int \<Rightarrow> int \<Rightarrow> chunkState \<Rightarrow> string \<Rightarrow> chunkState" where
  "chunkLine maxCharsPerLine maxLinesPerChunk st line =
     flushIfFull maxLinesPerChunk
       (if int (length line) \<le> maxCharsPerLine then pushLine st line
        else pushWrapped maxLinesPerChunk (wrapLine line maxCharsPerLine) st)"

definition chunkText :: "string \<Rightarrow> int \<Rightarrow> int \<Rightarrow> string list" where
  "chunkText txt maxCharsPerLine maxLinesPerChunk =
     (let st = foldl (chunkLine maxCharsPerLine maxLinesPerChunk)
                 \<lparr>chunks = [], currentChunk = [], currentChunkLines = 0\<rparr>
                 (split newline txt);
          result = (if length (currentChunk st) > 0
                    then chunks st @ [join [newline] (currentChunk st)] else chunks st)
      in if length result > 0 then result else [txt])"

section \<open>Notions used to state the properties\<close>

definition allSnaplexes :: "Environment list \<Rightarrow> Snaplex list" where
  "allSnaplexes envs = concat (map snaplexes envs)"

definition allNodes :: "Environment list \<Rightarrow> ExecutionNode list" where
  "allNodes envs = concat (map (\<lambda>s. nodes (container s)) (allSnaplexes envs))"

text \<open>What the layout reads of a snaplex and of an environment: the identifiers, in order.\<close>

definition snaplexShape :: "Snaplex \<Rightarrow> string \<times> string list" where
  "snaplexShape s = (snaplex_id s, map node_id (nodes (container s)))"

definition envShape :: "Environment \<Rightarrow> string \<times> (string \<times> string list) list" where
  "envShape e = (env_id e, map snaplexShape (snaplexes e))"

section \<open>Sample data\<close>

text \<open>
  The model of the end-to-end scenario: one production environment with one cloud-hosted
  snaplex of six baseline-size control nodes, memory optimisation off, nothing else; and
  the module state before any library has been loaded.
\<close>

definition controlNode :: "string \<Rightarrow> ExecutionNode" where
  "controlNode i =
     \<lparr>node_id = i, node_name = ''node-'' @ i, node_type = JCC,
      hostname = ''node-'' @ i @ ''.snaplogic.local'', node_status = running,
      node_size = medium, memoryOptimized = False\<rparr>"

definition cluster1 :: Snaplex where
  "cluster1 =
     \<lparr>snaplex_id = ''cluster-1'', snaplex_name = ''Cluster 1'', snaplex_type = cloudplex,
      snaplex_environment = ''env-1'',
      container = \<lparr>nodes = map controlNode [''n1'', ''n2'', ''n3'', ''n4'', ''n5'', ''n6''],
                   minWidth = 450, minHeight = 300\<rparr>,
      snaplex_status = active\<rparr>"

definition env1 :: Environment where
  "env1 =
     \<lparr>env_id = ''env-1'', env_name = ''Production'', env_type = production,
      region = ''us-east-1'', snaplexes = [cluster1]\<rparr>"

definition startState :: appState where
  "startState =
     \<lparr>environments = [], endpoints = [], connections = [], counter = 1,
      randomSource = (\<lambda>n. 1 / (of_nat n + 2)), randomCalls = 0,
      clockSource = (\<lambda>n. 1700000000000 + int n), clockCalls = 0,
      isLoaded = False, libraryCache = Map.empty, libraryItems = Map.empty,
      useLibraryShapes = False\<rparr>"

definition scenario :: appState where
  "scenario = startState\<lparr>environments := [env1]\<rparr>"

definition sampleEndpoint :: Endpoint where
  "sampleEndpoint =
     \<lparr>endpoint_id = ''ep-1'', endpoint_name = ''Orders API'', endpoint_type = ep_rest,
      url = None\<rparr>"

section \<open>Further notions used to state the properties\<close>

text \<open>
  What no function of the synthesis writes: the store and the loaded library.
\<close>

definition frame :: "appState \<Rightarrow> appState \<Rightarrow> bool" where
  "frame s s' \<longleftrightarrow>
     environments s' = environments s \<and> endpoints s' = endpoints s
     \<and> connections s' = connections s \<and> isLoaded s' = isLoaded s
     \<and> libraryItems s' = libraryItems s"

text \<open>
  The type and identifier of a primitive, and the types and identifiers of the built-in
  shapes of an environment, a snaplex and a node, in the order they are pushed.
\<close>

definition tag :: "ExcalidrawElement \<Rightarrow> string \<times> ident" where
  "tag e = (el_type e, el_id e)"

definition environmentTags :: "Environment \<Rightarrow> (string \<times> ident) list" where
  "environmentTags env =
     [(''rectangle'', Id (''env-'' @ env_id env)), (''text'', Id (''label-'' @ env_id env))]"

definition snaplexTags :: "Snaplex \<Rightarrow> (string \<times> ident) list" where
  "snaplexTags snaplex =
     [(''rectangle'', Id (''snaplex-'' @ snaplex_id snaplex)),
      (''text'', Id (''label-snaplex-'' @ snaplex_id snaplex))]"

definition nodeTags :: "ExecutionNode \<Rightarrow> (string \<times> ident) list" where
  "nodeTags node =
     [(''ellipse'', Id (''node-'' @ node_id node)), (''text'', Id (''label-node-'' @ node_id node))]"

text \<open>
  What the scene holds for a snaplex and for an environment when the built-in shapes
  are used: the snaplex's two shapes, its dashed outline, then its nodes.
\<close>

definition fallbackSnaplexTags :: "Snaplex \<Rightarrow> (string \<times> ident) list" where
  "fallbackSnaplexTags snaplex =
     snaplexTags snaplex @ [(''rectangle'', Id (''container-'' @ snaplex_id snaplex))]
       @ concat (map nodeTags (nodes (container snaplex)))"

definition fallbackEnvironmentTags :: "Environment \<Rightarrow> (string \<times> ident) list" where
  "fallbackEnvironmentTags env =
     environmentTags env @ concat (map fallbackSnaplexTags (snaplexes env))"

text \<open>
  A primitive without the four fields that \<^verbatim>\<open>cloneLibraryItem\<close> regenerates for every
  clone, and a result of \<^verbatim>\<open>getShape\<close> with these fields erased in every primitive.
\<close>

definition withoutIdentity :: "ExcalidrawElement \<Rightarrow> ExcalidrawElement" where
  "withoutIdentity e = e\<lparr>el_id := Id [], seed := 0, versionNonce := 0, updated := 0\<rparr>"

definition bundleOutline :: "exn + ExcalidrawElement list \<Rightarrow> exn + ExcalidrawElement list" where
  "bundleOutline r = map_sum id (map withoutIdentity) r"

text \<open>
  A sequence of \<^verbatim>\<open>getShape\<close> calls, answered with the cache as the code does, or with
  \<^verbatim>\<open>clearCache\<close> called before each of them, so that every call derives its bundle anew.
\<close>

fun getShapes ::
  "bool \<Rightarrow> cacheKey list \<Rightarrow> appState \<Rightarrow> (exn + ExcalidrawElement list) list \<times> appState" where
  "getShapes useCache [] s = ([], s)"
| "getShapes useCache ((ty, x, y) # rest) s =
     (let (r, s1) = getShape ty x y (if useCache then s else clearCache s);
          (rs, s2) = getShapes useCache rest s1
      in (r # rs, s2))"

text \<open>
  The bundle of a shape type at a place, as a function of the library alone: the
  elements of the library item moved to the place, without the regenerated fields. The
  cache is sound when every entry is such a bundle.
\<close>

definition placed :: "num \<Rightarrow> num \<Rightarrow> num \<Rightarrow> num \<Rightarrow> ExcalidrawElement \<Rightarrow> ExcalidrawElement" where
  "placed x y minX minY element =
     withoutIdentity (element\<lparr>el_x := x + el_x element - minX, el_y := y + el_y element - minY,
                        isDeleted := False\<rparr>)"

definition derived :: "(SnapLogicShapeType \<rightharpoonup> LibraryItem) \<Rightarrow> SnapLogicShapeType \<Rightarrow> num \<Rightarrow> num
    \<Rightarrow> exn + ExcalidrawElement list" where
  "derived items ty x y =
     (case items ty of
        None \<Rightarrow> Inr []
      | Some libraryItem \<Rightarrow>
          (case item_elements libraryItem of
             None \<Rightarrow> Inl TypeError
           | Some elements \<Rightarrow>
               Inr (map (placed x y (Min (set (map el_x elements))) (Min (set (map el_y elements))))
                      elements)))"

definition cacheSound :: "appState \<Rightarrow> bool" where
  "cacheSound s \<longleftrightarrow>
     (\<forall>ty x y els. libraryCache s (ty, x, y) = Some els \<longrightarrow>
        Inr (map withoutIdentity els) = derived (libraryItems s) ty x y)"

section \<open>Further sample data\<close>


definition brokenLibrary :: appState where
  "brokenLibrary =
     startState\<lparr>isLoaded := True,
       libraryItems := [CLOUDPLEX \<mapsto>
          \<lparr>item_id = ''lib-1'', item_name = Some ''Cloudplex'', item_elements = None\<rparr>]\<rparr>"

definition libraryShape :: ExcalidrawElement where
  "libraryShape =
     shapeElement (Id ''lib-jcc'') ''ellipse'' 10 20 48 48 ''#1e1e1e'' ''#a5d8ff'' ''solid'' 2
       ''solid'' 1 [] (Some 2)
       \<lparr>st_index = IndexKey ''a0'', st_seed = 1, st_versionNonce = 2, st_updated = 3\<rparr>"

definition loadedLibrary :: appState where
  "loadedLibrary =
     startState\<lparr>isLoaded := True,
       libraryItems := [JCC_NODE \<mapsto>
          \<lparr>item_id = ''lib-2'', item_name = Some ''JCC Node'',
           item_elements = Some [libraryShape]\<rparr>]\<rparr>"

section \<open>Notions used to state the properties of the text flow\<close>

text \<open>The lines the text flows into: every logical line, wrapped where it is too long.\<close>

definition flowLines :: "string \<Rightarrow> int \<Rightarrow> string list" where
  "flowLines input maxCharsPerLine =
     concat (map (\<lambda>line. wrapLine line maxCharsPerLine) (split newline input))"

text \<open>The lines of a list of chunks.\<close>

definition chunkLines :: "string list \<Rightarrow> string list" where
  "chunkLines cs = concat (map (split newline) cs)"

text \<open>The words of a list of lines: the non-empty pieces between spaces.\<close>

definition wordsOf :: "string list \<Rightarrow> string list" where
  "wordsOf ls = filter (\<lambda>w. w \<noteq> []) (concat (map (split space) ls))"

text \<open>An output word is the input word, or the cut and ellipsis of an over-long one.\<close>

definition wordKept :: "int \<Rightarrow> string \<Rightarrow> string \<Rightarrow> bool" where
  "wordKept m w out \<longleftrightarrow>
     out = w \<or> (m < int (length w) \<and> out = take (nat (m - 3)) w @ ''...'')"

text \<open>The words of the line that are longer than the limit all come before the others.\<close>

definition longWordsFirst :: "int \<Rightarrow> string \<Rightarrow> bool" where
  "longWordsFirst m line \<longleftrightarrow>
     list_all (\<lambda>w. int (length w) \<le> m)
       (dropWhile (\<lambda>w. m < int (length w)) (split space line))"

text \<open>The lines pushed so far, and what the chunking loop keeps true between lines.\<close>

definition linesOf :: "chunkState \<Rightarrow> string list" where
  "linesOf st = chunkLines (chunks st) @ currentChunk st"

definition chunkInv :: "nat \<Rightarrow> chunkState \<Rightarrow> bool" where
  "chunkInv N st \<longleftrightarrow>
     currentChunkLines st = length (currentChunk st)
     \<and> length (currentChunk st) < N
     \<and> list_all (\<lambda>c. length (split newline c) = N) (chunks st)
     \<and> list_all (\<lambda>l. newline \<notin> set l) (currentChunk st)"

definition chunked :: "string \<Rightarrow> int \<Rightarrow> nat \<Rightarrow> chunkState" where
  "chunked input m N =
     foldl (chunkLine m (int N)) \<lparr>chunks = [], currentChunk = [], currentChunkLines = 0\<rparr>
       (split newline input)"

section \<open>Sample texts\<close>

text \<open>
  Three texts of 200 logical lines: 199 empty lines and one line of eleven words of 11
  characters and one of 25; 200 lines of 21 spaces; 200 empty lines.
\<close>

definition wrappingText :: string where
  "wrappingText =
     replicate 199 newline @ concat (replicate 11 ''aaaaaaaaaaa '') @ replicate 25 CHR ''c''"

definition blankText :: string where
  "blankText = join [newline] (replicate 200 (replicate 21 space))"

definition emptyLinesText :: string where
  "emptyLinesText = replicate 199 newline"

section \<open>Properties of the layout\<close>

lemma layoutNodes_dom:
  "dom (layoutNodes sx sp i x y ns pm) = dom pm \<union> (\<lambda>n. nodeKey (node_id n)) ` set ns"
  by (induction ns arbitrary: i x y pm) (auto simp: Let_def)

lemma layoutNodes_other:
  "k \<notin> (\<lambda>n. nodeKey (node_id n)) ` set ns \<Longrightarrow> layoutNodes sx sp i x y ns pm k = pm k"
  by (induction ns arbitrary: i x y pm) (auto simp: Let_def)

lemma layoutNodes_cong:
  "map node_id ns = map node_id ns' \<Longrightarrow>
   layoutNodes sx sp i x y ns pm = layoutNodes sx sp i x y ns' pm"
proof (induction ns arbitrary: ns' i x y pm)
  case Nil
  then show ?case by simp
next
  case (Cons n ns)
  then obtain m ms where ns': "ns' = m # ms" and h: "node_id n = node_id m" and t: "map node_id ns = map node_id ms"
    by (cases ns') auto
  show ?case unfolding ns' layoutNodes.simps Let_def h by (rule Cons.IH [OF t])
qed

lemma key_inj [simp]:
  "envKey a = envKey b \<longleftrightarrow> a = b" "snaplexKey a = snaplexKey b \<longleftrightarrow> a = b"
  "nodeKey a = nodeKey b \<longleftrightarrow> a = b" "endpointKey a = endpointKey b \<longleftrightarrow> a = b"
  by (simp_all add: envKey_def snaplexKey_def nodeKey_def endpointKey_def)

lemma key_prefix_neq [simp]:
  "snaplexKey a \<noteq> envKey b" "envKey b \<noteq> snaplexKey a"
  by (simp_all add: envKey_def snaplexKey_def)

lemma layoutSnaplex_positions_dom:
  "dom (sl_positions (layoutSnaplex y st s)) =
     dom (sl_positions st) \<union> {snaplexKey (snaplex_id s)}
       \<union> (\<lambda>n. nodeKey (node_id n)) ` set (nodes (container s))"
  by (simp add: layoutSnaplex_def Let_def layoutNodes_dom)

lemma foldl_layoutSnaplex_positions_dom:
  "dom (sl_positions (foldl (layoutSnaplex y) st ss)) =
     dom (sl_positions st) \<union> (\<lambda>s. snaplexKey (snaplex_id s)) ` set ss
       \<union> (\<lambda>n. nodeKey (node_id n)) ` (\<Union>s\<in>set ss. set (nodes (container s)))"
  by (induction ss arbitrary: st) (auto simp: layoutSnaplex_positions_dom)

lemma layoutSnaplex_envDimensions:
  "sl_envDimensions (layoutSnaplex y st s) =
     (sl_envDimensions st)(snaplexKey (snaplex_id s) \<mapsto>
        \<lparr>dim_width = SNAPLEX_WIDTH, dim_height = snaplexHeight s\<rparr>)"
  by (simp add: layoutSnaplex_def Let_def)

lemma foldl_layoutSnaplex_envDimensions_other:
  "k \<notin> (\<lambda>s. snaplexKey (snaplex_id s)) ` set ss \<Longrightarrow>
   sl_envDimensions (foldl (layoutSnaplex y) st ss) k = sl_envDimensions st k"
  by (induction ss arbitrary: st) (auto simp: layoutSnaplex_envDimensions)

lemma foldl_layoutSnaplex_envDimensions_at:
  "distinct (map snaplex_id ss) \<Longrightarrow> s \<in> set ss \<Longrightarrow>
   sl_envDimensions (foldl (layoutSnaplex y) st ss) (snaplexKey (snaplex_id s)) =
     Some \<lparr>dim_width = SNAPLEX_WIDTH, dim_height = snaplexHeight s\<rparr>"
proof (induction ss arbitrary: st)
  case Nil
  then show ?case by simp
next
  case (Cons a ss)
  show ?case
  proof (cases "s \<in> set ss")
    case True
    with Cons show ?thesis by simp
  next
    case False
    with Cons.prems have sa: "s = a" and "snaplex_id a \<notin> snaplex_id ` set ss" by auto
    then have "snaplexKey (snaplex_id a) \<notin> (\<lambda>s. snaplexKey (snaplex_id s)) ` set ss"
      by auto
    from foldl_layoutSnaplex_envDimensions_other [OF this]
    show ?thesis by (simp add: sa layoutSnaplex_envDimensions)
  qed
qed

lemma layoutEnvironment_positions_dom:
  "dom (ls_positions (layoutEnvironment i st e)) =
     dom (ls_positions st) \<union> {envKey (env_id e)}
       \<union> (\<lambda>s. snaplexKey (snaplex_id s)) ` set (snaplexes e)
       \<union> (\<lambda>n. nodeKey (node_id n)) ` (\<Union>s\<in>set (snaplexes e). set (nodes (container s)))"
  by (simp add: layoutEnvironment_def Let_def foldl_layoutSnaplex_positions_dom)

lemma layoutEnvironments_positions_dom:
  "dom (ls_positions (layoutEnvironments i envs st)) =
     dom (ls_positions st) \<union> (\<lambda>e. envKey (env_id e)) ` set envs
       \<union> (\<lambda>s. snaplexKey (snaplex_id s)) ` set (allSnaplexes envs)
       \<union> (\<lambda>n. nodeKey (node_id n)) ` set (allNodes envs)"
proof (induction envs arbitrary: i st)
  case Nil
  then show ?case by (simp add: allSnaplexes_def allNodes_def)
next
  case (Cons e envs)
  show ?case
    unfolding layoutEnvironments.simps Cons.IH layoutEnvironment_positions_dom
    by (auto simp: allSnaplexes_def allNodes_def)
qed

lemma layoutEndpoints_dom:
  "dom (layoutEndpoints sx y i eps pm) = dom pm \<union> (\<lambda>e. endpointKey (endpoint_id e)) ` set eps"
  by (induction eps arbitrary: i pm) auto

lemma autoLayout_positions_dom:
  "dom (positions (autoLayout envs eps)) =
     (\<lambda>e. envKey (env_id e)) ` set envs
       \<union> (\<lambda>s. snaplexKey (snaplex_id s)) ` set (allSnaplexes envs)
       \<union> (\<lambda>n. nodeKey (node_id n)) ` set (allNodes envs)
       \<union> (\<lambda>e. endpointKey (endpoint_id e)) ` set eps"
  by (simp add: autoLayout_def Let_def layoutEndpoints_dom layoutEnvironments_positions_dom)

lemma layoutEnvironment_envDimensions_other:
  "k \<noteq> envKey (env_id e) \<Longrightarrow> k \<notin> (\<lambda>s. snaplexKey (snaplex_id s)) ` set (snaplexes e) \<Longrightarrow>
   ls_envDimensions (layoutEnvironment i st e) k = ls_envDimensions st k"
  by (simp add: layoutEnvironment_def Let_def foldl_layoutSnaplex_envDimensions_other)

lemma layoutEnvironment_envDimensions_at:
  "distinct (map snaplex_id (snaplexes e)) \<Longrightarrow> s \<in> set (snaplexes e) \<Longrightarrow>
   ls_envDimensions (layoutEnvironment i st e) (snaplexKey (snaplex_id s)) =
     Some \<lparr>dim_width = SNAPLEX_WIDTH, dim_height = snaplexHeight s\<rparr>"
  by (simp add: layoutEnvironment_def Let_def foldl_layoutSnaplex_envDimensions_at)

lemma layoutEnvironments_envDimensions_other:
  "k \<notin> (\<lambda>e. envKey (env_id e)) ` set envs \<Longrightarrow>
   k \<notin> (\<lambda>s. snaplexKey (snaplex_id s)) ` set (allSnaplexes envs) \<Longrightarrow>
   ls_envDimensions (layoutEnvironments i envs st) k = ls_envDimensions st k"
proof (induction envs arbitrary: i st)
  case Nil
  then show ?case by simp
next
  case (Cons e envs)
  from Cons.prems have a: "k \<notin> (\<lambda>e. envKey (env_id e)) ` set envs"
    and b: "k \<notin> (\<lambda>s. snaplexKey (snaplex_id s)) ` set (allSnaplexes envs)"
    and c: "k \<noteq> envKey (env_id e)"
    and d: "k \<notin> (\<lambda>s. snaplexKey (snaplex_id s)) ` set (snaplexes e)"
    by (auto simp: allSnaplexes_def)
  show ?case
    by (simp add: Cons.IH [OF a b] layoutEnvironment_envDimensions_other [OF c d])
qed

lemma layoutEnvironments_envDimensions_at:
  "distinct (map snaplex_id (allSnaplexes envs)) \<Longrightarrow> s \<in> set (allSnaplexes envs) \<Longrightarrow>
   ls_envDimensions (layoutEnvironments i envs st) (snaplexKey (snaplex_id s)) =
     Some \<lparr>dim_width = SNAPLEX_WIDTH, dim_height = snaplexHeight s\<rparr>"
proof (induction envs arbitrary: i st)
  case Nil
  then show ?case by (simp add: allSnaplexes_def)
next
  case (Cons e envs)
  from Cons.prems(1) have de: "distinct (map snaplex_id (snaplexes e))"
    and dr: "distinct (map snaplex_id (allSnaplexes envs))"
    and disj: "snaplex_id ` set (snaplexes e) \<inter> snaplex_id ` set (allSnaplexes envs) = {}"
    by (auto simp: allSnaplexes_def)
  show ?case
  proof (cases "s \<in> set (allSnaplexes envs)")
    case True
    from Cons.IH [OF dr True] show ?thesis by simp
  next
    case False
    with Cons.prems(2) have se: "s \<in> set (snaplexes e)" by (auto simp: allSnaplexes_def)
    with disj have "snaplex_id s \<notin> snaplex_id ` set (allSnaplexes envs)" by auto
    then have b: "snaplexKey (snaplex_id s) \<notin> (\<lambda>s. snaplexKey (snaplex_id s)) ` set (allSnaplexes envs)"
      by auto
    have a: "snaplexKey (snaplex_id s) \<notin> (\<lambda>e. envKey (env_id e)) ` set envs"
      by auto
    show ?thesis
      by (simp add: layoutEnvironments_envDimensions_other [OF a b]
            layoutEnvironment_envDimensions_at [OF de se])
  qed
qed

lemma snaplexRows_eq:
  "snaplexRows s = \<lceil>(of_nat (length (nodes (container s))) :: rat) / 5\<rceil>"
  by (simp add: snaplexRows_def)

lemma height_arith:
  fixes r :: int
  shows "max (300::rat) (300 + (if r > 1 then of_int (r - 1) * 70 else 0)) =
         max 300 (300 + (of_int r - 1) * 70)"
proof (cases "r > 1")
  case True
  then show ?thesis by simp
next
  case False
  then have "(of_int r - 1) * 70 \<le> (0::rat)" by simp
  with False show ?thesis by (simp add: max_def)
qed

lemma height_arith_pos:
  fixes r :: int
  assumes "1 \<le> r"
  shows "max (300::rat) (300 + (if r > 1 then of_int (r - 1) * 70 else 0)) =
         300 + of_int (max 0 (r - 1)) * 70"
  using assms by (cases "r > 1") (simp_all add: max_def)

lemma snaplexHeight_formula:
  "snaplexHeight s =
     max SNAPLEX_HEIGHT
       (SNAPLEX_HEIGHT + (of_int \<lceil>(of_nat (length (nodes (container s))) :: rat) / 5\<rceil> - 1) * 70)"
  unfolding snaplexHeight_def Let_def snaplexRows_eq by (rule height_arith)

lemma snaplexHeight_pos_nodes:
  assumes "0 < length (nodes (container s))"
  shows "snaplexHeight s =
     SNAPLEX_HEIGHT
       + of_int (max 0 (\<lceil>(of_nat (length (nodes (container s))) :: rat) / 5\<rceil> - 1)) * 70"
proof -
  from assms have "(0::rat) < of_nat (length (nodes (container s))) / 5" by simp
  then have "0 < \<lceil>(of_nat (length (nodes (container s))) :: rat) / 5\<rceil>"
    by (simp only: zero_less_ceiling)
  then have "1 \<le> \<lceil>(of_nat (length (nodes (container s))) :: rat) / 5\<rceil>" by linarith
  then show ?thesis
    unfolding snaplexHeight_def Let_def snaplexRows_eq by (rule height_arith_pos)
qed

lemma snaplexHeight_ge: "SNAPLEX_HEIGHT \<le> snaplexHeight s"
  by (simp add: snaplexHeight_def Let_def)

lemma snaplexHeight_no_nodes: "nodes (container s) = [] \<Longrightarrow> snaplexHeight s = SNAPLEX_HEIGHT"
  by (simp add: snaplexHeight_def snaplexRows_def Let_def)

lemma snaplexHeight_cong:
  "snaplexShape s = snaplexShape s' \<Longrightarrow> snaplexHeight s = snaplexHeight s'"
  by (auto simp: snaplexShape_def snaplexHeight_def snaplexRows_def dest: map_eq_imp_length_eq)

lemma layoutSnaplex_cong:
  assumes "snaplexShape s = snaplexShape s'"
  shows "layoutSnaplex y st s = layoutSnaplex y st s'"
proof -
  from assms have i: "snaplex_id s = snaplex_id s'"
    and n: "map node_id (nodes (container s)) = map node_id (nodes (container s'))"
    by (simp_all add: snaplexShape_def)
  show ?thesis
    unfolding layoutSnaplex_def Let_def i snaplexHeight_cong [OF assms]
      layoutNodes_cong [OF n] ..
qed

lemma foldl_layoutSnaplex_cong:
  "map snaplexShape ss = map snaplexShape ss' \<Longrightarrow>
   foldl (layoutSnaplex y) st ss = foldl (layoutSnaplex y) st ss'"
proof (induction ss arbitrary: ss' st)
  case Nil
  then show ?case by simp
next
  case (Cons a ss)
  then obtain b bs where ss': "ss' = b # bs" and h: "snaplexShape a = snaplexShape b"
    and t: "map snaplexShape ss = map snaplexShape bs"
    by (cases ss') auto
  show ?case unfolding ss' foldl_Cons layoutSnaplex_cong [OF h] by (rule Cons.IH [OF t])
qed

lemma layoutEnvironment_cong:
  assumes "envShape e = envShape e'"
  shows "layoutEnvironment i st e = layoutEnvironment i st e'"
proof -
  from assms have i: "env_id e = env_id e'"
    and n: "map snaplexShape (snaplexes e) = map snaplexShape (snaplexes e')"
    by (simp_all add: envShape_def)
  show ?thesis
    unfolding layoutEnvironment_def i foldl_layoutSnaplex_cong [OF n] ..
qed

lemma layoutEnvironments_cong:
  "map envShape envs = map envShape envs' \<Longrightarrow>
   layoutEnvironments i envs st = layoutEnvironments i envs' st"
proof (induction envs arbitrary: envs' i st)
  case Nil
  then show ?case by simp
next
  case (Cons a envs)
  then obtain b bs where envs': "envs' = b # bs" and h: "envShape a = envShape b"
    and t: "map envShape envs = map envShape bs"
    by (cases envs') auto
  show ?case
    unfolding envs' layoutEnvironments.simps layoutEnvironment_cong [OF h]
    by (rule Cons.IH [OF t])
qed

lemma layoutEndpoints_cong:
  "map endpoint_id eps = map endpoint_id eps' \<Longrightarrow>
   layoutEndpoints sx y i eps pm = layoutEndpoints sx y i eps' pm"
proof (induction eps arbitrary: eps' i pm)
  case Nil
  then show ?case by simp
next
  case (Cons a eps)
  then obtain b bs where eps': "eps' = b # bs" and h: "endpoint_id a = endpoint_id b"
    and t: "map endpoint_id eps = map endpoint_id bs"
    by (cases eps') auto
  show ?case
    unfolding eps' layoutEndpoints.simps h
    by (rule Cons.IH [OF t])
qed

lemma autoLayout_cong:
  assumes "map envShape envs = map envShape envs'" "map endpoint_id eps = map endpoint_id eps'"
  shows "autoLayout envs eps = autoLayout envs' eps'"
proof -
  have l: "length envs = length envs'" using assms(1) by (rule map_eq_imp_length_eq)
  show ?thesis
    unfolding autoLayout_def l layoutEnvironments_cong [OF assms(1)] layoutEndpoints_cong [OF assms(2)] ..
qed

text \<open>
  C2. For a snaplex with \<open>k\<close> nodes the layout records, under the snaplex's key, the fixed
  width 450 and the height \<open>max 300 (300 + (\<lceil>k / 5\<rceil> - 1) * 70)\<close>; for \<open>k > 0\<close> this is
  \<open>300 + max 0 (\<lceil>k / 5\<rceil> - 1) * 70\<close>, and for \<open>k = 0\<close> it is the minimum 300 itself, so
  neither size is ever below its minimum. The record is read back under the snaplex's
  key, so the snaplex identifiers are taken to be distinct, as the data model requires.
\<close>

theorem snaplex_height_recorded:
  assumes "distinct (map snaplex_id (allSnaplexes envs))"
    and "snaplex \<in> set (allSnaplexes envs)"
    and "k = length (nodes (container snaplex))"
  shows "\<exists>d. envDimensions (autoLayout envs eps) (snaplexKey (snaplex_id snaplex)) = Some d
           \<and> dim_height d = max SNAPLEX_HEIGHT (SNAPLEX_HEIGHT + (of_int \<lceil>(of_nat k :: rat) / 5\<rceil> - 1) * 70)
           \<and> (0 < k \<longrightarrow>
                dim_height d = SNAPLEX_HEIGHT + of_int (max 0 (\<lceil>(of_nat k :: rat) / 5\<rceil> - 1)) * 70)
           \<and> (k = 0 \<longrightarrow> dim_height d = SNAPLEX_HEIGHT)
           \<and> dim_width d = SNAPLEX_WIDTH
           \<and> SNAPLEX_HEIGHT \<le> dim_height d \<and> 0 < dim_height d \<and> 0 < dim_width d"
proof -
  let ?d = "\<lparr>dim_width = SNAPLEX_WIDTH, dim_height = snaplexHeight snaplex\<rparr>"
  have rec: "envDimensions (autoLayout envs eps) (snaplexKey (snaplex_id snaplex)) = Some ?d"
    by (simp add: autoLayout_def Let_def layoutEnvironments_envDimensions_at [OF assms(1,2)])
  have ge: "SNAPLEX_HEIGHT \<le> snaplexHeight snaplex" by (rule snaplexHeight_ge)
  have f: "dim_height ?d =
      max SNAPLEX_HEIGHT (SNAPLEX_HEIGHT + (of_int \<lceil>(of_nat k :: rat) / 5\<rceil> - 1) * 70)"
    unfolding assms(3) using snaplexHeight_formula [of snaplex] by simp
  have p: "0 < k \<longrightarrow>
      dim_height ?d = SNAPLEX_HEIGHT + of_int (max 0 (\<lceil>(of_nat k :: rat) / 5\<rceil> - 1)) * 70"
    unfolding assms(3) using snaplexHeight_pos_nodes [of snaplex] by simp
  have z: "k = 0 \<longrightarrow> dim_height ?d = SNAPLEX_HEIGHT"
    unfolding assms(3) using snaplexHeight_no_nodes [of snaplex] by simp
  from ge have pos: "0 < dim_height ?d" by simp
  from rec f p z ge pos show ?thesis by (intro exI [of _ ?d] conjI) simp_all
qed

theorem snaplex_height_recorded_witness:
  "\<exists>d. envDimensions (autoLayout [env1] []) (snaplexKey ''cluster-1'') = Some d
     \<and> dim_height d = 370 \<and> dim_width d = 450"
proof -
  have a: "distinct (map snaplex_id (allSnaplexes [env1]))"
    by (simp add: allSnaplexes_def env1_def)
  have b: "cluster1 \<in> set (allSnaplexes [env1])"
    by (simp add: allSnaplexes_def env1_def)
  have c: "(6::nat) = length (nodes (container cluster1))"
    by (simp add: cluster1_def)
  have r: "\<lceil>(6::rat) / 5\<rceil> = 2" by (rule ceiling_unique) simp_all
  from snaplex_height_recorded [OF a b c, of "[]"] show ?thesis
    by (auto simp: cluster1_def r)
qed

text \<open>
  C3. The layout is a function of the ordered identifiers alone: two runs over
  environment sequences with the same identifiers in the same nesting and order, and
  over endpoint sequences with the same identifiers in the same order, give the same
  position map and the same dimension map. Two runs over identical sequences are the
  special case; no name, type, status or other field, and nothing outside the two
  arguments, reaches a recorded coordinate or size.
\<close>

theorem autoLayout_deterministic:
  assumes "map envShape envs1 = map envShape envs2"
    and "map endpoint_id eps1 = map endpoint_id eps2"
  shows "positions (autoLayout envs1 eps1) = positions (autoLayout envs2 eps2)
       \<and> envDimensions (autoLayout envs1 eps1) = envDimensions (autoLayout envs2 eps2)"
  using autoLayout_cong [OF assms] by simp

theorem autoLayout_deterministic_witness:
  "positions (autoLayout [env1] []) = positions (autoLayout [env1\<lparr>env_name := ''Renamed''\<rparr>] [])
   \<and> envDimensions (autoLayout [env1] [])
       = envDimensions (autoLayout [env1\<lparr>env_name := ''Renamed''\<rparr>] [])"
proof -
  have a: "map envShape [env1] = map envShape [env1\<lparr>env_name := ''Renamed''\<rparr>]"
    by (simp add: envShape_def)
  have b: "map endpoint_id ([] :: Endpoint list) = map endpoint_id []" by simp
  from autoLayout_deterministic [OF a b] show ?thesis .
qed

text \<open>
  C10. The position map of the layout has an entry for every entity of the model: under
  \<open>env-<id>\<close> for every environment, \<open>snaplex-<id>\<close> for every snaplex of every
  environment, \<open>node-<id>\<close> for every node of every snaplex, and \<open>endpoint-<id>\<close> for
  every endpoint.
\<close>

theorem autoLayout_positions_total:
  "(\<forall>env \<in> set envs.
      positions (autoLayout envs eps) (envKey (env_id env)) \<noteq> None
      \<and> (\<forall>snaplex \<in> set (snaplexes env).
            positions (autoLayout envs eps) (snaplexKey (snaplex_id snaplex)) \<noteq> None
            \<and> (\<forall>node \<in> set (nodes (container snaplex)).
                  positions (autoLayout envs eps) (nodeKey (node_id node)) \<noteq> None)))
   \<and> (\<forall>endpoint \<in> set eps.
        positions (autoLayout envs eps) (endpointKey (endpoint_id endpoint)) \<noteq> None)"
proof -
  let ?P = "positions (autoLayout envs eps)"
  have E: "envKey (env_id env) \<in> dom ?P" if "env \<in> set envs" for env
    unfolding autoLayout_positions_dom using that by blast
  have S: "snaplexKey (snaplex_id snaplex) \<in> dom ?P"
    if "env \<in> set envs" "snaplex \<in> set (snaplexes env)" for env snaplex
  proof -
    from that have "snaplex \<in> set (allSnaplexes envs)" by (auto simp: allSnaplexes_def)
    then show ?thesis unfolding autoLayout_positions_dom by blast
  qed
  have N: "nodeKey (node_id node) \<in> dom ?P"
    if "env \<in> set envs" "snaplex \<in> set (snaplexes env)"
       "node \<in> set (nodes (container snaplex))" for env snaplex node
  proof -
    from that have "node \<in> set (allNodes envs)"
      by (auto simp: allNodes_def allSnaplexes_def)
    then show ?thesis unfolding autoLayout_positions_dom by blast
  qed
  have P: "endpointKey (endpoint_id endpoint) \<in> dom ?P" if "endpoint \<in> set eps" for endpoint
    unfolding autoLayout_positions_dom using that by blast
  from E S N P show ?thesis unfolding domIff by blast
qed

theorem autoLayout_positions_total_witness:
  "positions (autoLayout [env1] [sampleEndpoint]) (envKey ''env-1'') \<noteq> None
   \<and> positions (autoLayout [env1] [sampleEndpoint]) (snaplexKey ''cluster-1'') \<noteq> None
   \<and> positions (autoLayout [env1] [sampleEndpoint]) (nodeKey ''n6'') \<noteq> None
   \<and> positions (autoLayout [env1] [sampleEndpoint]) (endpointKey ''ep-1'') \<noteq> None"
  using autoLayout_positions_total [of "[env1]" "[sampleEndpoint]"]
  by (simp add: env1_def cluster1_def controlNode_def sampleEndpoint_def)


section \<open>Properties of the synthesis\<close>

lemma frame_refl [simp]: "frame s s"
  by (simp add: frame_def)

lemma frame_trans: "frame s s1 \<Longrightarrow> frame s1 s2 \<Longrightarrow> frame s s2"
  by (simp add: frame_def)

lemma frame_Math_random: "frame s (snd (Math_random s))"
  by (simp add: Math_random_def frame_def)

lemma frame_Date_now: "frame s (snd (Date_now s))"
  by (simp add: Date_now_def frame_def)

lemma frame_randomSeed: "frame s (snd (randomSeed s))"
  by (simp add: randomSeed_def Math_random_def frame_def)

lemma frame_generateIndex: "frame s (snd (generateIndex s))"
  by (simp add: generateIndex_def Let_def frame_def)

lemma frame_newStamp: "frame s (snd (newStamp s))"
  by (simp add: newStamp_def generateIndex_def randomSeed_def Math_random_def Date_now_def
        Let_def frame_def)

lemma frame_indicatorStamp: "frame s (snd (indicatorStamp s))"
  by (simp add: indicatorStamp_def randomSeed_def Math_random_def Date_now_def
        Let_def frame_def)

lemma frame_createEnvironmentElement:
  "frame s (snd (createEnvironmentElement env x y w h s))"
  unfolding createEnvironmentElement_def Let_def split_def snd_conv
  by (rule frame_trans [OF frame_newStamp frame_newStamp])

lemma frame_createSnaplexElement:
  "frame s (snd (createSnaplexElement snaplex x y w h s))"
  unfolding createSnaplexElement_def Let_def split_def snd_conv
  by (rule frame_trans [OF frame_newStamp frame_newStamp])

lemma frame_createNodeElement:
  "frame s (snd (createNodeElement node x y sz s))"
  unfolding createNodeElement_def Let_def split_def snd_conv
  by (rule frame_trans [OF frame_newStamp frame_newStamp])

lemma frame_createEndpointElement:
  "frame s (snd (createEndpointElement endpoint x y w h s))"
  unfolding createEndpointElement_def Let_def split_def snd_conv
  by (rule frame_trans [OF frame_newStamp frame_newStamp])

lemma frame_createSnaplexContainer:
  "frame s (snd (createSnaplexContainer snaplex x y w h s))"
  unfolding createSnaplexContainer_def Let_def split_def snd_conv
  by (rule frame_newStamp)

lemma frame_createConnectionElement:
  "frame s (snd (createConnectionElement c sx sy ex ey s))"
  unfolding createConnectionElement_def Let_def split_def snd_conv
  by (rule frame_newStamp)

lemma frame_cloneElements: "frame s (snd (cloneElements x y mx my els s))"
proof (induction els arbitrary: s)
  case Nil
  show ?case by simp
next
  case (Cons e els)
  have 1: "frame s (snd (Date_now (snd (randomSeed (snd (randomSeed (snd (Math_random s))))))))"
    by (rule frame_trans [OF frame_Math_random], rule frame_trans [OF frame_randomSeed],
        rule frame_trans [OF frame_randomSeed], rule frame_Date_now)
  show ?case
    unfolding cloneElements.simps Let_def split_def snd_conv
    by (rule frame_trans [OF 1 Cons.IH])
qed

lemma frame_cloneLibraryItem: "frame s (snd (cloneLibraryItem ty x y s))"
  by (simp add: cloneLibraryItem_def Let_def split_def frame_cloneElements
        split: option.splits)

lemma frame_libraryCache_update [simp]: "frame s (s'\<lparr>libraryCache := c\<rparr>) = frame s s'"
  by (simp add: frame_def)

lemma frame_getShape: "frame s (snd (getShape ty x y s))"
  using frame_cloneLibraryItem [of s ty x y]
  by (auto simp: getShape_def split: option.splits prod.splits sum.splits)

lemma frame_checkLibraryAvailability: "frame s (checkLibraryAvailability s)"
  by (simp add: checkLibraryAvailability_def frame_def)

lemma useLibraryShapes_check [simp]:
  "useLibraryShapes (checkLibraryAvailability s) = isLoaded s"
  by (simp add: checkLibraryAvailability_def)

lemma createSnaplex_unloaded:
  "\<not> isLoaded s \<Longrightarrow>
   createSnaplex snaplex x y w h s =
     createSnaplexElement snaplex x y (orDefault w 350) (orDefault h 200)
       (checkLibraryAvailability s)"
  by (simp add: createSnaplex_def Let_def)

lemma createSnaplex_library:
  "isLoaded s \<Longrightarrow>
   getShape (snaplexShapeType snaplex) x y (checkLibraryAvailability s) = (Inr els, s1) \<Longrightarrow>
   els \<noteq> [] \<Longrightarrow> createSnaplex snaplex x y w h s = (els, s1)"
  by (simp add: createSnaplex_def Let_def)

lemma createSnaplex_empty:
  "isLoaded s \<Longrightarrow>
   getShape (snaplexShapeType snaplex) x y (checkLibraryAvailability s) = (Inr [], s1) \<Longrightarrow>
   createSnaplex snaplex x y w h s =
     createSnaplexElement snaplex x y (orDefault w 350) (orDefault h 200) s1"
  by (simp add: createSnaplex_def Let_def)

lemma createSnaplex_thrown:
  "isLoaded s \<Longrightarrow>
   getShape (snaplexShapeType snaplex) x y (checkLibraryAvailability s) = (Inl e, s1) \<Longrightarrow>
   createSnaplex snaplex x y w h s =
     createSnaplexElement snaplex x y (orDefault w 350) (orDefault h 200) s1"
  by (simp add: createSnaplex_def Let_def)

lemma frame_createSnaplex: "frame s (snd (createSnaplex snaplex x y w h s))"
proof (cases "isLoaded s")
  case False
  show ?thesis
    unfolding createSnaplex_unloaded [OF False]
    by (rule frame_trans [OF frame_checkLibraryAvailability frame_createSnaplexElement])
next
  case True
  let ?s = "checkLibraryAvailability s"
  obtain r s1 where g: "getShape (snaplexShapeType snaplex) x y ?s = (r, s1)"
    by (cases "getShape (snaplexShapeType snaplex) x y ?s")
  have f1: "frame s s1"
    using frame_trans [OF frame_checkLibraryAvailability frame_getShape, of s "snaplexShapeType snaplex" x y]
    by (simp add: g)
  show ?thesis
  proof (cases r)
    case (Inl e)
    show ?thesis
      unfolding createSnaplex_thrown [OF True g [unfolded Inl]]
      by (rule frame_trans [OF f1 frame_createSnaplexElement])
  next
    case (Inr els)
    show ?thesis
    proof (cases "els = []")
      case True
      show ?thesis
        unfolding createSnaplex_empty [OF \<open>isLoaded s\<close> g [unfolded Inr True]]
        by (rule frame_trans [OF f1 frame_createSnaplexElement])
    next
      case False
      show ?thesis
        unfolding createSnaplex_library [OF \<open>isLoaded s\<close> g [unfolded Inr] False]
        using f1 by simp
    qed
  qed
qed

lemma snd_createNodeIndicators:
  "snd (createNodeIndicators node x y s) =
     (if node_size node \<noteq> medium \<or> (memoryOptimized node \<and> node_type node = JCC)
      then snd (indicatorStamp (snd (indicatorStamp s))) else s)"
  by (simp add: createNodeIndicators_def Let_def split_def)

lemma frame_createNodeIndicators: "frame s (snd (createNodeIndicators node x y s))"
  unfolding snd_createNodeIndicators
  using frame_trans [OF frame_indicatorStamp frame_indicatorStamp, of s]
  by (simp del: split_paired_All)

lemma createExecutionNode_unloaded:
  "\<not> isLoaded s \<Longrightarrow>
   createExecutionNode node x y s = createNodeElement node x y 40 (checkLibraryAvailability s)"
  by (simp add: createExecutionNode_def Let_def)

lemma createExecutionNode_library:
  "isLoaded s \<Longrightarrow>
   getShape (nodeShapeType node) x y (checkLibraryAvailability s) = (Inr els, s1) \<Longrightarrow>
   els \<noteq> [] \<Longrightarrow>
   createExecutionNode node x y s =
     (els @ fst (createNodeIndicators node x y s1), snd (createNodeIndicators node x y s1))"
  by (simp add: createExecutionNode_def Let_def split_def)

lemma createExecutionNode_empty:
  "isLoaded s \<Longrightarrow>
   getShape (nodeShapeType node) x y (checkLibraryAvailability s) = (Inr [], s1) \<Longrightarrow>
   createExecutionNode node x y s = createNodeElement node x y 40 s1"
  by (simp add: createExecutionNode_def Let_def)

lemma createExecutionNode_thrown:
  "isLoaded s \<Longrightarrow>
   getShape (nodeShapeType node) x y (checkLibraryAvailability s) = (Inl e, s1) \<Longrightarrow>
   createExecutionNode node x y s = createNodeElement node x y 40 s1"
  by (simp add: createExecutionNode_def Let_def)

lemma frame_createExecutionNode: "frame s (snd (createExecutionNode node x y s))"
proof (cases "isLoaded s")
  case False
  show ?thesis
    unfolding createExecutionNode_unloaded [OF False]
    by (rule frame_trans [OF frame_checkLibraryAvailability frame_createNodeElement])
next
  case True
  let ?s = "checkLibraryAvailability s"
  obtain r s1 where g: "getShape (nodeShapeType node) x y ?s = (r, s1)"
    by (cases "getShape (nodeShapeType node) x y ?s")
  have f1: "frame s s1"
    using frame_trans [OF frame_checkLibraryAvailability frame_getShape, of s "nodeShapeType node" x y]
    by (simp add: g)
  show ?thesis
  proof (cases r)
    case (Inl e)
    show ?thesis
      unfolding createExecutionNode_thrown [OF True g [unfolded Inl]]
      by (rule frame_trans [OF f1 frame_createNodeElement])
  next
    case (Inr els)
    show ?thesis
    proof (cases "els = []")
      case True
      show ?thesis
        unfolding createExecutionNode_empty [OF \<open>isLoaded s\<close> g [unfolded Inr True]]
        by (rule frame_trans [OF f1 frame_createNodeElement])
    next
      case False
      show ?thesis
        unfolding createExecutionNode_library [OF \<open>isLoaded s\<close> g [unfolded Inr] False] snd_conv
        by (rule frame_trans [OF f1 frame_createNodeIndicators])
    qed
  qed
qed

lemma frame_createEndpoint: "frame s (snd (createEndpoint endpoint x y s))"
  unfolding createEndpoint_def by (rule frame_createEndpointElement)

lemma frame_nodeElements: "frame s (snd (nodeElements pm ns s))"
proof (induction ns arbitrary: s)
  case Nil
  show ?case by simp
next
  case (Cons n ns)
  show ?case
    unfolding nodeElements.simps Let_def split_def snd_conv
    by (rule frame_trans [OF frame_createExecutionNode Cons.IH])
qed

lemma frame_snaplexElements: "frame s (snd (snaplexElements layout ss s))"
proof (induction ss arbitrary: s)
  case Nil
  show ?case by simp
next
  case (Cons a ss)
  show ?case
    unfolding snaplexElements.simps Let_def split_def snd_conv
    by (rule frame_trans [OF frame_createSnaplex], rule frame_trans [OF frame_createSnaplexContainer],
        rule frame_trans [OF frame_nodeElements], rule Cons.IH)
qed

lemma frame_environmentElements: "frame s (snd (environmentElements layout es s))"
proof (induction es arbitrary: s)
  case Nil
  show ?case by simp
next
  case (Cons e es)
  show ?case
    unfolding environmentElements.simps Let_def split_def snd_conv
    by (rule frame_trans [OF frame_createEnvironmentElement],
        rule frame_trans [OF frame_snaplexElements], rule Cons.IH)
qed

lemma frame_endpointElements: "frame s (snd (endpointElements pm eps s))"
proof (induction eps arbitrary: s)
  case Nil
  show ?case by simp
next
  case (Cons e eps)
  show ?case
    unfolding endpointElements.simps Let_def split_def snd_conv
    by (rule frame_trans [OF frame_createEndpoint Cons.IH])
qed

lemma frame_resolveConnection: "frame s (snd (resolveConnection pm c s))"
  unfolding resolveConnection_def Let_def by (rule frame_createConnectionElement)

lemma frame_connectionElements: "frame s (snd (connectionElements pm cs s))"
proof (induction cs arbitrary: s)
  case Nil
  show ?case by simp
next
  case (Cons c cs)
  show ?case
    unfolding connectionElements.simps Let_def split_def snd_conv
    by (rule frame_trans [OF frame_resolveConnection Cons.IH])
qed

lemma frame_generateExcalidrawElements: "frame s (snd (generateExcalidrawElements s))"
  unfolding generateExcalidrawElements_def Let_def split_def snd_conv
  by (rule frame_trans [OF frame_environmentElements],
      rule frame_trans [OF frame_endpointElements], rule frame_connectionElements)

lemma tag_shapeElement [simp]:
  "tag (shapeElement i ty x y w h stroke bg fill sw sstyle rough groups rnd m) = (ty, i)"
  by (simp add: tag_def shapeElement_def)

lemma tag_update [simp]:
  "tag (e\<lparr>textProps := t\<rparr>) = tag e" "tag (e\<lparr>arrowProps := a\<rparr>) = tag e"
  by (simp_all add: tag_def)

lemma tags_createEnvironmentElement:
  "map tag (fst (createEnvironmentElement env x y w h s)) = environmentTags env"
  by (simp add: createEnvironmentElement_def Let_def split_def environmentTags_def)

lemma tags_createSnaplexElement:
  "map tag (fst (createSnaplexElement snaplex x y w h s)) = snaplexTags snaplex"
  by (simp add: createSnaplexElement_def Let_def split_def snaplexTags_def)

lemma tags_createNodeElement:
  "map tag (fst (createNodeElement node x y sz s)) = nodeTags node"
  by (simp add: createNodeElement_def Let_def split_def nodeTags_def)

lemma tags_createEndpointElement:
  "map tag (fst (createEndpointElement endpoint x y w h s)) =
     [(''diamond'', Id (''endpoint-'' @ endpoint_id endpoint)),
      (''text'', Id (''label-endpoint-'' @ endpoint_id endpoint))]"
  by (simp add: createEndpointElement_def Let_def split_def)

lemma tag_createSnaplexContainer:
  "tag (fst (createSnaplexContainer snaplex x y w h s)) =
     (''rectangle'', Id (''container-'' @ snaplex_id snaplex))"
  by (simp add: createSnaplexContainer_def Let_def split_def)

lemma tag_createConnectionElement:
  "tag (fst (createConnectionElement c sx sy ex ey s)) =
     (''arrow'', Id (''connection-'' @ conn_id c))"
  by (simp add: createConnectionElement_def Let_def split_def)

lemma frame_isLoaded: "frame s s' \<Longrightarrow> isLoaded s' = isLoaded s"
  by (simp add: frame_def)

lemma isLoaded_snd [simp]:
  "isLoaded (checkLibraryAvailability s) = isLoaded s"
  "isLoaded (snd (createEnvironmentElement env x y w h s)) = isLoaded s"
  "isLoaded (snd (createSnaplexElement snaplex x y w h s)) = isLoaded s"
  "isLoaded (snd (createNodeElement node x y sz s)) = isLoaded s"
  "isLoaded (snd (createEndpointElement endpoint x y w h s)) = isLoaded s"
  "isLoaded (snd (createSnaplexContainer snaplex x y w h s)) = isLoaded s"
  "isLoaded (snd (createSnaplex snaplex x y ow oh s)) = isLoaded s"
  "isLoaded (snd (createExecutionNode node x y s)) = isLoaded s"
  "isLoaded (snd (nodeElements pm ns s)) = isLoaded s"
  "isLoaded (snd (snaplexElements layout ss s)) = isLoaded s"
  "isLoaded (snd (environmentElements layout es s)) = isLoaded s"
  by (rule frame_isLoaded, rule frame_checkLibraryAvailability frame_createEnvironmentElement
        frame_createSnaplexElement frame_createNodeElement frame_createEndpointElement
        frame_createSnaplexContainer frame_createSnaplex frame_createExecutionNode
        frame_nodeElements frame_snaplexElements frame_environmentElements)+

lemma tags_nodeElements_unloaded:
  "\<not> isLoaded s \<Longrightarrow> map tag (fst (nodeElements pm ns s)) = concat (map nodeTags ns)"
proof (induction ns arbitrary: s)
  case Nil
  show ?case by simp
next
  case (Cons n ns)
  then show ?case
    by (simp add: Let_def split_def createExecutionNode_unloaded tags_createNodeElement)
qed

lemma tags_snaplexElements_unloaded:
  "\<not> isLoaded s \<Longrightarrow>
   map tag (fst (snaplexElements layout ss s)) = concat (map fallbackSnaplexTags ss)"
proof (induction ss arbitrary: s)
  case Nil
  show ?case by simp
next
  case (Cons a ss)
  then show ?case
    by (simp add: Let_def split_def tags_nodeElements_unloaded
          createSnaplex_unloaded tags_createSnaplexElement
          tag_createSnaplexContainer fallbackSnaplexTags_def)
qed

lemma tags_environmentElements_unloaded:
  "\<not> isLoaded s \<Longrightarrow>
   map tag (fst (environmentElements layout es s)) = concat (map fallbackEnvironmentTags es)"
proof (induction es arbitrary: s)
  case Nil
  show ?case by simp
next
  case (Cons e es)
  then show ?case
    by (simp add: Let_def split_def tags_snaplexElements_unloaded
          tags_createEnvironmentElement fallbackEnvironmentTags_def)
qed

lemma tags_generate_unloaded:
  assumes "\<not> isLoaded s" "endpoints s = []" "connections s = []"
  shows "map tag (fst (generateExcalidrawElements s)) =
           concat (map fallbackEnvironmentTags (environments s))"
proof -
  let ?layout = "autoLayout (environments s) (endpoints s)"
  let ?s1 = "snd (environmentElements ?layout (environments s) s)"
  have e: "endpoints ?s1 = []" "connections ?s1 = []"
    using frame_environmentElements [of s ?layout "environments s"] assms
    by (simp_all add: frame_def)
  show ?thesis
    by (simp add: generateExcalidrawElements_def Let_def split_def e
          tags_environmentElements_unloaded [OF assms(1)])
qed

lemma scenario_layout:
  assumes "snaplexes env = [snaplex]" "length (nodes (container snaplex)) = 6"
  shows "envDimensions (autoLayout [env] eps) (envKey (env_id env))
           = Some \<lparr>dim_width = 1200, dim_height = 500\<rparr>"
    and "envDimensions (autoLayout [env] eps) (snaplexKey (snaplex_id snaplex))
           = Some \<lparr>dim_width = 450, dim_height = 370\<rparr>"
proof -
  have r: "\<lceil>(6::rat) / 5\<rceil> = 2" by (rule ceiling_unique) simp_all
  have h: "snaplexHeight snaplex = 370"
    by (simp add: snaplexHeight_def snaplexRows_def assms(2) r)
  show "envDimensions (autoLayout [env] eps) (envKey (env_id env))
           = Some \<lparr>dim_width = 1200, dim_height = 500\<rparr>"
    by (simp add: autoLayout_def layoutEnvironment_def layoutSnaplex_def Let_def assms(1) h)
  show "envDimensions (autoLayout [env] eps) (snaplexKey (snaplex_id snaplex))
           = Some \<lparr>dim_width = 450, dim_height = 370\<rparr>"
    by (simp add: autoLayout_def layoutEnvironment_def layoutSnaplex_def Let_def assms(1) h)
qed

text \<open>
  C1, as the code has it. For a store holding one environment with one snaplex of six
  nodes, no endpoint and no connection, and with no library loaded, so that the built-in
  shapes are drawn: the layout records 1200 by 500 for the environment (its configured
  minimum) and 450 by 370 for the snaplex, and the scene has exactly 17 primitives, in
  this order: the environment rectangle and its label, the filled snaplex rectangle and
  its header label, the dashed outline rectangle of the snaplex, and for each node an
  ellipse and a label. No indicator badge is among them. The count is 17 and not 16
  because a snaplex is drawn as two rectangles, the filled one of
  \<^verbatim>\<open>createSnaplexElement\<close> and the dashed one of \<^verbatim>\<open>createSnaplexContainer\<close>.
\<close>

theorem scenario_fallback_scene:
  assumes "environments s = [env]" and "snaplexes env = [snaplex]"
    and "length (nodes (container snaplex)) = 6"
    and "endpoints s = []" and "connections s = []" and "\<not> isLoaded s"
  shows "envDimensions (autoLayout (environments s) (endpoints s)) (envKey (env_id env))
           = Some \<lparr>dim_width = 1200, dim_height = 500\<rparr>
       \<and> envDimensions (autoLayout (environments s) (endpoints s)) (snaplexKey (snaplex_id snaplex))
           = Some \<lparr>dim_width = 450, dim_height = 370\<rparr>
       \<and> length (fst (generateExcalidrawElements s)) = 17
       \<and> map tag (fst (generateExcalidrawElements s)) =
           [(''rectangle'', Id (''env-'' @ env_id env)),
            (''text'', Id (''label-'' @ env_id env)),
            (''rectangle'', Id (''snaplex-'' @ snaplex_id snaplex)),
            (''text'', Id (''label-snaplex-'' @ snaplex_id snaplex)),
            (''rectangle'', Id (''container-'' @ snaplex_id snaplex))]
           @ concat (map nodeTags (nodes (container snaplex)))"
proof -
  have t: "map tag (fst (generateExcalidrawElements s)) =
           [(''rectangle'', Id (''env-'' @ env_id env)),
            (''text'', Id (''label-'' @ env_id env)),
            (''rectangle'', Id (''snaplex-'' @ snaplex_id snaplex)),
            (''text'', Id (''label-snaplex-'' @ snaplex_id snaplex)),
            (''rectangle'', Id (''container-'' @ snaplex_id snaplex))]
           @ concat (map nodeTags (nodes (container snaplex)))"
    unfolding tags_generate_unloaded [OF assms(6,4,5)]
    by (simp add: assms(1,2) fallbackEnvironmentTags_def fallbackSnaplexTags_def
          environmentTags_def snaplexTags_def)
  have "length (map tag (fst (generateExcalidrawElements s))) = 17"
    unfolding t by (simp add: length_concat nodeTags_def o_def assms(3) sum_list_triv)
  then have l: "length (fst (generateExcalidrawElements s)) = 17" by simp
  from scenario_layout [OF assms(2,3), of "endpoints s"] t l show ?thesis
    by (simp add: assms(1))
qed

theorem scenario_fallback_scene_witness:
  "envDimensions (autoLayout [env1] []) (envKey ''env-1'')
           = Some \<lparr>dim_width = 1200, dim_height = 500\<rparr>
   \<and> envDimensions (autoLayout [env1] []) (snaplexKey ''cluster-1'')
           = Some \<lparr>dim_width = 450, dim_height = 370\<rparr>
   \<and> length (fst (generateExcalidrawElements scenario)) = 17"
  using scenario_fallback_scene [of scenario env1 cluster1]
  by (simp add: scenario_def startState_def env1_def cluster1_def)

text \<open>
  Counterexample to C1 as stated: the scene of the scenario, with the built-in shapes, does not have
  16 primitives.
\<close>

theorem scenario_sixteen_counterexample:
  "length (fst (generateExcalidrawElements scenario)) \<noteq> 16"
proof -
  have "length (map tag (fst (generateExcalidrawElements scenario))) = 17"
    by (subst tags_generate_unloaded)
       (simp_all add: scenario_def startState_def env1_def cluster1_def
          fallbackEnvironmentTags_def fallbackSnaplexTags_def environmentTags_def
          snaplexTags_def nodeTags_def)
  then show ?thesis by simp
qed

text \<open>
  C9. Building the scene, which runs the layout and then the synthesis of every shape,
  leaves the environments, endpoints and connections of the store as they were, with
  every nested snaplex and node: the only state it writes is the index counter, the
  consumed random draws and clock readings, the library cache and the factory's flag.
\<close>

theorem synthesis_leaves_model_unchanged:
  "environments (snd (generateExcalidrawElements s)) = environments s
   \<and> endpoints (snd (generateExcalidrawElements s)) = endpoints s
   \<and> connections (snd (generateExcalidrawElements s)) = connections s"
  using frame_generateExcalidrawElements [of s] by (simp add: frame_def)

lemma fst_resolveConnection:
  "fst (resolveConnection pm conn s) =
     (let sourcePos = positionOr pm (source conn) 0 0;
          targetPos = positionOr pm (target conn) 100 100
      in fst (createConnectionElement conn (pos_x sourcePos) (pos_y sourcePos)
           (pos_x targetPos) (pos_y targetPos) s))"
  by (simp add: resolveConnection_def Let_def)

lemma tags_connectionElements:
  "map tag (fst (connectionElements pm conns s)) =
     map (\<lambda>c. (''arrow'', Id (''connection-'' @ conn_id c))) conns"
  by (induction conns arbitrary: s)
     (simp_all add: Let_def split_def resolveConnection_def tag_createConnectionElement)

text \<open>
  C5. Every connection yields exactly one primitive, an arrow, whether or not its ends
  are in the position map; an arrow whose source has no entry starts at the default
  point (0, 0), and an arrow whose target has no entry ends at the default point
  (100, 100). The model has no failing branch here: the lookup and the arrow literal
  cannot throw.
\<close>

theorem connection_unresolved_ends:
  "map el_type (fst (connectionElements pm conns s)) = replicate (length conns) ''arrow''
   \<and> el_type (fst (resolveConnection pm conn s)) = ''arrow''
   \<and> (pm (source conn) = None \<longrightarrow>
        el_x (fst (resolveConnection pm conn s)) = 0
        \<and> el_y (fst (resolveConnection pm conn s)) = 0)
   \<and> (pm (target conn) = None \<longrightarrow>
        el_x (fst (resolveConnection pm conn s)) + el_width (fst (resolveConnection pm conn s)) = 100
        \<and> el_y (fst (resolveConnection pm conn s)) + el_height (fst (resolveConnection pm conn s)) = 100)"
proof -
  have "map (fst \<circ> tag) (fst (connectionElements pm conns s)) = replicate (length conns) ''arrow''"
    unfolding map_map [symmetric] tags_connectionElements
    by (simp add: map_replicate_const o_def)
  then have a: "map el_type (fst (connectionElements pm conns s)) = replicate (length conns) ''arrow''"
    by (simp add: o_def tag_def)
  show ?thesis
    by (simp add: a fst_resolveConnection createConnectionElement_def Let_def split_def
          shapeElement_def positionOr_def)
qed

theorem connection_unresolved_ends_witness:
  "el_type (fst (resolveConnection Map.empty
      \<lparr>conn_id = ''c1'', source = ''ghost'', target = ''nowhere'', conn_type = data_flow,
       conn_label = None\<rparr> startState)) = ''arrow''
   \<and> el_x (fst (resolveConnection Map.empty
      \<lparr>conn_id = ''c1'', source = ''ghost'', target = ''nowhere'', conn_type = data_flow,
       conn_label = None\<rparr> startState)) = 0
   \<and> el_y (fst (resolveConnection Map.empty
      \<lparr>conn_id = ''c1'', source = ''ghost'', target = ''nowhere'', conn_type = data_flow,
       conn_label = None\<rparr> startState)) = 0"
  using connection_unresolved_ends [of Map.empty "[]" startState
      "\<lparr>conn_id = ''c1'', source = ''ghost'', target = ''nowhere'', conn_type = data_flow,
       conn_label = None\<rparr>"]
  by simp

lemma createSnaplexElement_nonempty: "fst (createSnaplexElement snaplex x y w h s) \<noteq> []"
  by (simp add: createSnaplexElement_def Let_def split_def)

lemma createNodeElement_nonempty: "fst (createNodeElement node x y sz s) \<noteq> []"
  by (simp add: createNodeElement_def Let_def split_def)

lemma createExecutionNode_fallback:
  "fst (createExecutionNode node x y s) \<noteq> []
   \<and> (\<not> isLoaded s
        \<or> (\<exists>e. fst (getShape (nodeShapeType node) x y (checkLibraryAvailability s)) = Inl e)
        \<or> fst (getShape (nodeShapeType node) x y (checkLibraryAvailability s)) = Inr [] \<longrightarrow>
        (\<exists>s'. createExecutionNode node x y s = createNodeElement node x y 40 s'))"
proof (cases "isLoaded s")
  case False
  then show ?thesis by (auto simp: createExecutionNode_unloaded createNodeElement_nonempty)
next
  case True
  let ?g = "getShape (nodeShapeType node) x y (checkLibraryAvailability s)"
  obtain r s1 where g: "?g = (r, s1)" by (cases ?g)
  show ?thesis
  proof (cases r)
    case (Inl e)
    with True g show ?thesis
      by (auto simp: createExecutionNode_thrown createNodeElement_nonempty)
  next
    case (Inr els)
    with True g show ?thesis
      by (cases "els = []")
         (auto simp: createExecutionNode_empty createExecutionNode_library
            createNodeElement_nonempty)
  qed
qed

text \<open>
  C7. \<^verbatim>\<open>createSnaplex\<close> always returns a non-empty list, and it returns the built-in
  shapes of \<^verbatim>\<open>createSnaplexElement\<close> when the library is not loaded, when
  \<^verbatim>\<open>getShape\<close> throws (the exception is caught and goes no further), and when
  \<^verbatim>\<open>getShape\<close> returns the empty list. The same holds of \<^verbatim>\<open>createExecutionNode\<close>
  with the built-in shapes of \<^verbatim>\<open>createNodeElement\<close>; the environment and endpoint
  shapes never ask the library.
\<close>

theorem createSnaplex_falls_back:
  "fst (createSnaplex snaplex x y w h s) \<noteq> []
   \<and> (\<not> isLoaded s \<longrightarrow>
        createSnaplex snaplex x y w h s =
          createSnaplexElement snaplex x y (orDefault w 350) (orDefault h 200)
            (checkLibraryAvailability s))
   \<and> (isLoaded s \<and> (\<exists>e. fst (getShape (snaplexShapeType snaplex) x y (checkLibraryAvailability s)) = Inl e) \<longrightarrow>
        createSnaplex snaplex x y w h s =
          createSnaplexElement snaplex x y (orDefault w 350) (orDefault h 200)
            (snd (getShape (snaplexShapeType snaplex) x y (checkLibraryAvailability s))))
   \<and> (isLoaded s \<and> fst (getShape (snaplexShapeType snaplex) x y (checkLibraryAvailability s)) = Inr [] \<longrightarrow>
        createSnaplex snaplex x y w h s =
          createSnaplexElement snaplex x y (orDefault w 350) (orDefault h 200)
            (snd (getShape (snaplexShapeType snaplex) x y (checkLibraryAvailability s))))
   \<and> fst (createExecutionNode node x y s) \<noteq> []
   \<and> (\<not> isLoaded s
        \<or> (\<exists>e. fst (getShape (nodeShapeType node) x y (checkLibraryAvailability s)) = Inl e)
        \<or> fst (getShape (nodeShapeType node) x y (checkLibraryAvailability s)) = Inr [] \<longrightarrow>
        (\<exists>s'. createExecutionNode node x y s = createNodeElement node x y 40 s'))"
proof -
  let ?g = "getShape (snaplexShapeType snaplex) x y (checkLibraryAvailability s)"
  obtain r s1 where g: "?g = (r, s1)" by (cases ?g)
  have ne: "fst (createSnaplex snaplex x y w h s) \<noteq> []"
  proof (cases "isLoaded s")
    case False
    then show ?thesis by (simp add: createSnaplex_unloaded createSnaplexElement_nonempty)
  next
    case True
    show ?thesis
    proof (cases r)
      case (Inl e)
      with True g show ?thesis by (simp add: createSnaplex_thrown createSnaplexElement_nonempty)
    next
      case (Inr els)
      with True g show ?thesis
        by (cases "els = []")
           (simp_all add: createSnaplex_empty createSnaplex_library createSnaplexElement_nonempty)
    qed
  qed
  have th: "createSnaplex snaplex x y w h s =
          createSnaplexElement snaplex x y (orDefault w 350) (orDefault h 200) (snd ?g)"
    if "isLoaded s" "fst ?g = Inl e" for e
    using that g by (simp add: createSnaplex_thrown)
  have em: "createSnaplex snaplex x y w h s =
          createSnaplexElement snaplex x y (orDefault w 350) (orDefault h 200) (snd ?g)"
    if "isLoaded s" "fst ?g = Inr []"
    using that g by (simp add: createSnaplex_empty)
  from ne th em have snaplexPart:
    "fst (createSnaplex snaplex x y w h s) \<noteq> []
     \<and> (\<not> isLoaded s \<longrightarrow>
        createSnaplex snaplex x y w h s =
          createSnaplexElement snaplex x y (orDefault w 350) (orDefault h 200)
            (checkLibraryAvailability s))
     \<and> (isLoaded s \<and> (\<exists>e. fst ?g = Inl e) \<longrightarrow>
        createSnaplex snaplex x y w h s =
          createSnaplexElement snaplex x y (orDefault w 350) (orDefault h 200) (snd ?g))
     \<and> (isLoaded s \<and> fst ?g = Inr [] \<longrightarrow>
        createSnaplex snaplex x y w h s =
          createSnaplexElement snaplex x y (orDefault w 350) (orDefault h 200) (snd ?g))"
    by (auto simp: createSnaplex_unloaded)
  from snaplexPart createExecutionNode_fallback [of node x y s] show ?thesis by blast
qed

theorem createSnaplex_falls_back_witness:
  "fst (getShape (snaplexShapeType cluster1) 0 0 (checkLibraryAvailability brokenLibrary))
     = Inl TypeError
   \<and> createSnaplex cluster1 0 0 None None brokenLibrary =
       createSnaplexElement cluster1 0 0 350 200
         (snd (getShape (snaplexShapeType cluster1) 0 0 (checkLibraryAvailability brokenLibrary)))
   \<and> fst (createSnaplex cluster1 0 0 None None brokenLibrary) \<noteq> []
   \<and> createSnaplex cluster1 0 0 None None startState =
       createSnaplexElement cluster1 0 0 350 200 (checkLibraryAvailability startState)
   \<and> fst (createExecutionNode (controlNode ''n1'') 0 0 startState) \<noteq> []"
proof -
  have u: "\<not> isLoaded startState" by (simp add: startState_def)
  have t: "fst (getShape (snaplexShapeType cluster1) 0 0 (checkLibraryAvailability brokenLibrary))
     = Inl TypeError"
    by (simp add: getShape_def cloneLibraryItem_def snaplexShapeType_def cluster1_def
          checkLibraryAvailability_def brokenLibrary_def startState_def)
  have l: "isLoaded brokenLibrary" by (simp add: brokenLibrary_def)
  from createSnaplex_falls_back [of cluster1 0 0 None None brokenLibrary "controlNode ''n1''"] t l
  have a: "fst (createSnaplex cluster1 0 0 None None brokenLibrary) \<noteq> []"
    and b: "createSnaplex cluster1 0 0 None None brokenLibrary =
       createSnaplexElement cluster1 0 0 (orDefault None 350) (orDefault None 200)
         (snd (getShape (snaplexShapeType cluster1) 0 0 (checkLibraryAvailability brokenLibrary)))"
    by blast+
  from createSnaplex_falls_back [of cluster1 0 0 None None startState "controlNode ''n1''"] u
  have c: "createSnaplex cluster1 0 0 None None startState =
       createSnaplexElement cluster1 0 0 (orDefault None 350) (orDefault None 200)
         (checkLibraryAvailability startState)"
    and d: "fst (createExecutionNode (controlNode ''n1'') 0 0 startState) \<noteq> []"
    by blast+
  have o: "orDefault None 350 = 350" "orDefault None 200 = 200" by (simp_all add: orDefault_def)
  from t a b c d show ?thesis unfolding o by blast
qed







lemma cloneElements_outline:
  "map withoutIdentity (fst (cloneElements x y mx my els s)) = map (placed x y mx my) els"
  by (induction els arbitrary: s)
     (simp_all add: Let_def split_def placed_def withoutIdentity_def)

lemma libraryCache_cloneElements [simp]:
  "libraryCache (snd (cloneElements x y mx my els s)) = libraryCache s"
  by (induction els arbitrary: s)
     (simp_all add: Let_def split_def randomSeed_def Math_random_def Date_now_def)

lemma libraryCache_cloneLibraryItem [simp]:
  "libraryCache (snd (cloneLibraryItem ty x y s)) = libraryCache s"
  by (simp add: cloneLibraryItem_def Let_def split_def split: option.splits)

lemma cloneLibraryItem_outline:
  "bundleOutline (fst (cloneLibraryItem ty x y s)) = derived (libraryItems s) ty x y"
  by (simp add: cloneLibraryItem_def derived_def bundleOutline_def Let_def split_def
        cloneElements_outline split: option.splits)

lemma cacheSound_empty: "libraryCache s = Map.empty \<Longrightarrow> cacheSound s"
  by (simp add: cacheSound_def)

lemma getShape_outline:
  assumes "cacheSound s"
  shows "bundleOutline (fst (getShape ty x y s)) =
           (if isLoaded s then derived (libraryItems s) ty x y else Inr [])"
proof (cases "isLoaded s")
  case False
  then show ?thesis by (simp add: getShape_def bundleOutline_def)
next
  case True
  show ?thesis
  proof (cases "libraryCache s (ty, x, y)")
    case (Some els)
    with assms have "Inr (map withoutIdentity els) = derived (libraryItems s) ty x y"
      by (simp add: cacheSound_def)
    with True Some show ?thesis by (simp add: getShape_def bundleOutline_def)
  next
    case None
    obtain r s1 where c: "cloneLibraryItem ty x y s = (r, s1)" by (cases "cloneLibraryItem ty x y s")
    from cloneLibraryItem_outline [of ty x y s] c
    have o: "bundleOutline r = derived (libraryItems s) ty x y" by simp
    show ?thesis
    proof (cases r)
      case (Inl e)
      with o have d: "derived (libraryItems s) ty x y = Inl e" by (simp add: bundleOutline_def)
      from True None c Inl show ?thesis by (simp add: getShape_def bundleOutline_def d)
    next
      case (Inr els)
      with o have d: "derived (libraryItems s) ty x y = Inr (map withoutIdentity els)"
        by (simp add: bundleOutline_def)
      from True None c Inr show ?thesis by (simp add: getShape_def bundleOutline_def d)
    qed
  qed
qed

lemma getShape_cacheSound:
  assumes "cacheSound s"
  shows "cacheSound (snd (getShape ty x y s))"
proof (cases "isLoaded s \<and> libraryCache s (ty, x, y) = None")
  case False
  with assms show ?thesis by (auto simp: getShape_def split: option.splits)
next
  case True
  obtain r s1 where c: "cloneLibraryItem ty x y s = (r, s1)" by (cases "cloneLibraryItem ty x y s")
  have f: "libraryItems s1 = libraryItems s" "libraryCache s1 = libraryCache s"
    using frame_cloneLibraryItem [of s ty x y] libraryCache_cloneLibraryItem [of ty x y s] c
    by (simp_all add: frame_def)
  from cloneLibraryItem_outline [of ty x y s] c
  have o: "bundleOutline r = derived (libraryItems s) ty x y" by simp
  show ?thesis
  proof (cases r)
    case (Inl e)
    with True c f assms show ?thesis by (simp add: getShape_def cacheSound_def)
  next
    case (Inr els)
    with o have "Inr (map withoutIdentity els) = derived (libraryItems s) ty x y"
      by (simp add: bundleOutline_def)
    with True c f assms Inr show ?thesis by (simp add: getShape_def cacheSound_def)
  qed
qed

lemma getShapes_outline:
  assumes "cacheSound s" "libraryItems s' = libraryItems s" "isLoaded s' = isLoaded s"
  shows "map bundleOutline (fst (getShapes True calls s)) =
         map bundleOutline (fst (getShapes False calls s'))"
  using assms
proof (induction calls arbitrary: s s')
  case Nil
  show ?case by simp
next
  case (Cons k calls)
  obtain ty x y where k: "k = (ty, x, y)" by (cases k)
  let ?s1 = "snd (getShape ty x y s)"
  let ?s1' = "snd (getShape ty x y (clearCache s'))"
  have cs: "cacheSound (clearCache s')" by (simp add: cacheSound_def clearCache_def)
  have h: "bundleOutline (fst (getShape ty x y s)) = bundleOutline (fst (getShape ty x y (clearCache s')))"
    unfolding getShape_outline [OF Cons.prems(1)] getShape_outline [OF cs]
    using Cons.prems(2,3) by (simp add: clearCache_def)
  have 1: "cacheSound ?s1" by (rule getShape_cacheSound [OF Cons.prems(1)])
  have 2: "libraryItems ?s1' = libraryItems ?s1" "isLoaded ?s1' = isLoaded ?s1"
    using frame_getShape [of s ty x y] frame_getShape [of "clearCache s'" ty x y] Cons.prems(2,3)
    by (simp_all add: frame_def clearCache_def)
  from Cons.IH [OF 1 2] h show ?case
    by (simp add: k Let_def split_def)
qed

lemma getShape_unloaded: "\<not> isLoaded s \<Longrightarrow> getShape ty x y s = (Inr [], s)"
  by (simp add: getShape_def)

lemma getShape_hit:
  "isLoaded s \<Longrightarrow> libraryCache s (ty, x, y) = Some els \<Longrightarrow> getShape ty x y s = (Inr els, s)"
  by (simp add: getShape_def)

lemma getShape_keeps_entry:
  assumes "libraryCache s k = Some els"
  shows "libraryCache (snd (getShape ty x y s)) k = Some els"
proof (cases "isLoaded s \<and> libraryCache s (ty, x, y) = None")
  case False
  with assms show ?thesis by (auto simp: getShape_def split: option.splits)
next
  case True
  with assms have n: "k \<noteq> (ty, x, y)" by auto
  obtain r s1 where c: "cloneLibraryItem ty x y s = (r, s1)" by (cases "cloneLibraryItem ty x y s")
  have f: "libraryCache s1 = libraryCache s"
    using libraryCache_cloneLibraryItem [of ty x y s] c by simp
  from True c f n assms show ?thesis
    by (cases r) (simp_all add: getShape_def)
qed

lemma getShape_stores:
  assumes "isLoaded s" "fst (getShape ty x y s) = Inr els"
  shows "libraryCache (snd (getShape ty x y s)) (ty, x, y) = Some els"
proof (cases "libraryCache s (ty, x, y)")
  case (Some c)
  with assms show ?thesis by (simp add: getShape_def)
next
  case None
  obtain r s1 where c: "cloneLibraryItem ty x y s = (r, s1)" by (cases "cloneLibraryItem ty x y s")
  from None c assms show ?thesis
    by (cases r) (simp_all add: getShape_def)
qed

lemma frame_getShapes: "frame s (snd (getShapes useCache calls s))"
proof (induction calls arbitrary: s)
  case Nil
  show ?case by (simp add: frame_def)
next
  case (Cons k calls)
  obtain ty x y where k: "k = (ty, x, y)" by (cases k)
  let ?s0 = "if useCache then s else clearCache s"
  have a: "frame s ?s0" by (simp add: frame_def clearCache_def)
  have b: "frame ?s0 (snd (getShape ty x y ?s0))" by (rule frame_getShape)
  from frame_trans [OF frame_trans [OF a b] Cons.IH [of "snd (getShape ty x y ?s0)"]]
  show ?case by (simp add: k Let_def split_def)
qed

lemma getShapes_keeps_entry:
  "libraryCache s k = Some els \<Longrightarrow> libraryCache (snd (getShapes True calls s)) k = Some els"
proof (induction calls arbitrary: s)
  case Nil
  then show ?case by simp
next
  case (Cons c calls)
  obtain ty x y where c: "c = (ty, x, y)" by (cases c)
  from Cons.IH [OF getShape_keeps_entry [OF Cons.prems, of ty x y]]
  show ?case by (simp add: c Let_def split_def)
qed

lemma getShape_again:
  assumes "fst (getShape ty x y s) = Inr els"
  shows "getShape ty x y (snd (getShapes True calls (snd (getShape ty x y s)))) =
           (Inr els, snd (getShapes True calls (snd (getShape ty x y s))))"
proof -
  let ?s1 = "snd (getShape ty x y s)"
  let ?s2 = "snd (getShapes True calls ?s1)"
  have l: "isLoaded ?s2 = isLoaded s"
    using frame_getShape [of s ty x y] frame_getShapes [of ?s1 True calls]
    by (simp add: frame_def)
  show ?thesis
  proof (cases "isLoaded s")
    case False
    with assms have "els = []" by (simp add: getShape_def)
    with False l show ?thesis by (simp add: getShape_unloaded)
  next
    case True
    from getShapes_keeps_entry [OF getShape_stores [OF True assms]]
    have "libraryCache ?s2 (ty, x, y) = Some els" .
    with True l show ?thesis by (simp add: getShape_hit)
  qed
qed

text \<open>
  C8, as the code has it. Starting from an empty cache, a sequence of \<^verbatim>\<open>getShape\<close> calls
  answered with the cache and the same sequence answered with the cache cleared before
  every call return the same results up to the four fields that \<^verbatim>\<open>cloneLibraryItem\<close>
  regenerates for every clone (identifier, seed, version nonce, update time): the same
  exceptions, and the same primitives with the same type, geometry and style. And once
  \<^verbatim>\<open>getShape\<close> has returned a bundle for a key, every later call with that key, after any
  further calls answered with the cache, returns this very bundle, identifiers and seeds
  included, and leaves the state as it finds it.
\<close>

theorem cache_outline_and_first_clone:
  "(libraryCache s = Map.empty \<longrightarrow>
      map bundleOutline (fst (getShapes True calls s)) =
      map bundleOutline (fst (getShapes False calls s)))
   \<and> (fst (getShape ty x y s) = Inr els \<longrightarrow>
      getShape ty x y (snd (getShapes True later (snd (getShape ty x y s)))) =
        (Inr els, snd (getShapes True later (snd (getShape ty x y s)))))"
proof -
  have a: "libraryCache s = Map.empty \<longrightarrow>
      map bundleOutline (fst (getShapes True calls s)) =
      map bundleOutline (fst (getShapes False calls s))"
    by (auto intro: getShapes_outline [OF cacheSound_empty refl refl])
  have b: "fst (getShape ty x y s) = Inr els \<longrightarrow>
      getShape ty x y (snd (getShapes True later (snd (getShape ty x y s)))) =
        (Inr els, snd (getShapes True later (snd (getShape ty x y s))))"
    by (auto intro: getShape_again)
  from a b show ?thesis by blast
qed

text \<open>
  Counterexample to C8 as stated: asked twice for the same shape at the same place, the cache
  returns the first clone again, and a fresh derivation returns a clone with a new
  identifier.
\<close>

theorem cache_changes_identity_counterexample:
  "fst (getShapes True [(JCC_NODE, 0, 0), (JCC_NODE, 0, 0)] loadedLibrary)
     \<noteq> fst (getShapes False [(JCC_NODE, 0, 0), (JCC_NODE, 0, 0)] loadedLibrary)"
proof
  let ?ids = "\<lambda>rs. map (\<lambda>r. case r of Inl e \<Rightarrow> [] | Inr els \<Rightarrow> map el_id els) rs"
  assume "fst (getShapes True [(JCC_NODE, 0, 0), (JCC_NODE, 0, 0)] loadedLibrary)
     = fst (getShapes False [(JCC_NODE, 0, 0), (JCC_NODE, 0, 0)] loadedLibrary)"
  then have "?ids (fst (getShapes True [(JCC_NODE, 0, 0), (JCC_NODE, 0, 0)] loadedLibrary))
     = ?ids (fst (getShapes False [(JCC_NODE, 0, 0), (JCC_NODE, 0, 0)] loadedLibrary))"
    by simp
  then show False
    by (simp add: getShape_def cloneLibraryItem_def clearCache_def loadedLibrary_def
          startState_def Let_def split_def randomSeed_def Math_random_def Date_now_def)
qed

theorem cache_outline_and_first_clone_witness:
  "libraryCache loadedLibrary = Map.empty
   \<and> map bundleOutline (fst (getShapes True [(JCC_NODE, 0, 0), (JCC_NODE, 0, 0)] loadedLibrary)) =
     map bundleOutline (fst (getShapes False [(JCC_NODE, 0, 0), (JCC_NODE, 0, 0)] loadedLibrary))
   \<and> (\<exists>shape. fst (getShape JCC_NODE 0 0 loadedLibrary) = Inr [shape]
        \<and> el_id shape = RandomId (1 / 2)
        \<and> fst (getShape JCC_NODE 0 0 (snd (getShape JCC_NODE 0 0 loadedLibrary))) = Inr [shape]
        \<and> snd (getShape JCC_NODE 0 0 (snd (getShape JCC_NODE 0 0 loadedLibrary)))
            = snd (getShape JCC_NODE 0 0 loadedLibrary)
        \<and> fst (getShape JCC_NODE 0 0
                 (snd (getShapes True [(JCC_NODE, 5, 5), (FM_NODE, 0, 0)]
                    (snd (getShape JCC_NODE 0 0 loadedLibrary))))) = Inr [shape])"
proof -
  let ?s1 = "snd (getShape JCC_NODE 0 0 loadedLibrary)"
  have e: "libraryCache loadedLibrary = Map.empty"
    by (simp add: loadedLibrary_def startState_def)
  obtain shape where g: "fst (getShape JCC_NODE 0 0 loadedLibrary) = Inr [shape]"
      and i: "el_id shape = RandomId (1 / 2)"
    by (simp add: getShape_def cloneLibraryItem_def loadedLibrary_def startState_def
          libraryShape_def shapeElement_def Let_def split_def Math_random_def)
  from cache_outline_and_first_clone [of loadedLibrary "[(JCC_NODE, 0, 0), (JCC_NODE, 0, 0)]"
      JCC_NODE 0 0 "[shape]" "[]"] e g
  have 1: "map bundleOutline (fst (getShapes True [(JCC_NODE, 0, 0), (JCC_NODE, 0, 0)] loadedLibrary)) =
     map bundleOutline (fst (getShapes False [(JCC_NODE, 0, 0), (JCC_NODE, 0, 0)] loadedLibrary))"
    and 2: "getShape JCC_NODE 0 0 ?s1 = (Inr [shape], ?s1)"
    by simp_all
  from cache_outline_and_first_clone [of loadedLibrary "[]"
      JCC_NODE 0 0 "[shape]" "[(JCC_NODE, 5, 5), (FM_NODE, 0, 0)]"] g
  have 3: "fst (getShape JCC_NODE 0 0
                 (snd (getShapes True [(JCC_NODE, 5, 5), (FM_NODE, 0, 0)] ?s1))) = Inr [shape]"
    by simp
  from e 1 g i 2 3 show ?thesis by simp
qed

section \<open>Properties of the text flow\<close>

lemma split_not_Nil [simp]: "split c xs \<noteq> []"
  by (induction xs) (auto split: list.splits)

lemma split_no_sep: "c \<notin> set xs \<Longrightarrow> split c xs = [xs]"
  by (induction xs) auto

lemma split_pieces_no_sep: "piece \<in> set (split c xs) \<Longrightarrow> c \<notin> set piece"
proof (induction xs arbitrary: piece)
  case Nil
  then show ?case by simp
next
  case (Cons x xs)
  obtain p ps where s: "split c xs = p # ps" by (cases "split c xs") simp_all
  show ?case
  proof (cases "x = c")
    case True
    with Cons show ?thesis by auto
  next
    case False
    with Cons.prems s have "piece = x # p \<or> piece \<in> set ps" by simp
    with Cons.IH s False show ?thesis by auto
  qed
qed

lemma split_append_sep:
  "c \<notin> set a \<Longrightarrow> split c (a @ c # b) = a # split c b"
  by (induction a) auto

lemma split_snoc_word:
  "c \<notin> set w \<Longrightarrow> split c (a @ c # w) = split c a @ [w]"
proof (induction a)
  case Nil
  then show ?case by (simp add: split_no_sep)
next
  case (Cons x a)
  obtain p ps where s: "split c a = p # ps" by (cases "split c a") simp_all
  from Cons s show ?case by simp
qed

lemma split_join:
  "ls \<noteq> [] \<Longrightarrow> \<forall>l \<in> set ls. c \<notin> set l \<Longrightarrow> split c (join [c] ls) = ls"
proof (induction ls)
  case Nil
  then show ?case by simp
next
  case (Cons a ls)
  show ?case
  proof (cases ls)
    case Nil
    with Cons.prems show ?thesis by (simp add: split_no_sep)
  next
    case (Cons b bs)
    with Cons.IH Cons.prems have "split c (join [c] (b # bs)) = b # bs" by simp
    with Cons.prems Cons show ?thesis by (simp add: split_append_sep)
  qed
qed

lemma length_split_ge [simp]: "0 < length (split c xs)"
  by simp

lemma flushIfFull_noop: "chunkInv N st \<Longrightarrow> flushIfFull (int N) st = st"
  by (simp add: chunkInv_def flushIfFull_def)

lemma push_step:
  assumes "chunkInv N st" "newline \<notin> set l"
  shows "chunkInv N (flushIfFull (int N) (pushLine st l))"
    and "linesOf (flushIfFull (int N) (pushLine st l)) = linesOf st @ [l]"
proof -
  let ?cur = "currentChunk st @ [l]"
  have nn: "\<forall>x \<in> set ?cur. newline \<notin> set x"
    using assms by (auto simp: chunkInv_def list_all_iff)
  have sj: "split newline (join [newline] ?cur) = ?cur"
    by (rule split_join [OF _ nn]) simp
  show "chunkInv N (flushIfFull (int N) (pushLine st l))"
    using assms sj
    by (auto simp: chunkInv_def flushIfFull_def pushLine_def)
  show "linesOf (flushIfFull (int N) (pushLine st l)) = linesOf st @ [l]"
    using assms sj
    by (auto simp: chunkInv_def flushIfFull_def pushLine_def linesOf_def chunkLines_def)
qed

lemma pushWrapped_inv:
  "chunkInv N st \<Longrightarrow> \<forall>l \<in> set ls. newline \<notin> set l \<Longrightarrow>
   chunkInv N (pushWrapped (int N) ls st)
   \<and> linesOf (pushWrapped (int N) ls st) = linesOf st @ ls"
proof (induction ls arbitrary: st)
  case Nil
  then show ?case by simp
next
  case (Cons l ls)
  from Cons.prems have a: "newline \<notin> set l" and b: "\<forall>l \<in> set ls. newline \<notin> set l" by auto
  note s = push_step [OF Cons.prems(1) a]
  from Cons.IH [OF s(1) b] s(2) show ?case by simp
qed

lemma split_pieces_subset: "piece \<in> set (split c xs) \<Longrightarrow> set piece \<subseteq> set xs"
proof (induction xs arbitrary: piece)
  case Nil
  then show ?case by simp
next
  case (Cons x xs)
  obtain p ps where s: "split c xs = p # ps" by (cases "split c xs") simp_all
  have p: "set p \<subseteq> set xs" using Cons.IH [of p] s by simp
  have ps: "set q \<subseteq> set xs" if "q \<in> set ps" for q using Cons.IH [of q] s that by simp
  show ?case
  proof (cases "x = c")
    case True
    with Cons.prems s p ps show ?thesis by auto
  next
    case False
    with Cons.prems s have "piece = x # p \<or> piece \<in> set ps" by simp
    with p ps show ?thesis by auto
  qed
qed

lemma wrapWords_fit:
  "int (length (if cur = [] then w else cur @ '' '' @ w)) \<le> m \<Longrightarrow>
   wrapWords m (w # ws) acc cur = wrapWords m ws acc (if cur = [] then w else cur @ '' '' @ w)"
  by (simp add: Let_def)

lemma wrapWords_flush:
  "\<not> int (length (cur @ '' '' @ w)) \<le> m \<Longrightarrow> cur \<noteq> [] \<Longrightarrow>
   wrapWords m (w # ws) acc cur = wrapWords m ws (acc @ [cur]) w"
  by (simp add: Let_def)

lemma wrapWords_truncate:
  "\<not> int (length w) \<le> m \<Longrightarrow>
   wrapWords m (w # ws) acc [] = wrapWords m ws (acc @ [take (nat (m - 3)) w @ ''...'']) []"
  by (simp add: Let_def)

lemma wrapWords_cases [case_names fit flush truncate]:
  assumes "int (length (if cur = [] then w else cur @ '' '' @ w)) \<le> m \<Longrightarrow> P"
    and "\<not> int (length (cur @ '' '' @ w)) \<le> m \<Longrightarrow> cur \<noteq> [] \<Longrightarrow> P"
    and "\<not> int (length w) \<le> m \<Longrightarrow> cur = [] \<Longrightarrow> P"
  shows P
  using assms by (cases "cur = []") auto

lemma wrapWords_no_newline:
  "\<forall>w \<in> set ws. newline \<notin> set w \<Longrightarrow> \<forall>l \<in> set acc. newline \<notin> set l \<Longrightarrow>
   newline \<notin> set cur \<Longrightarrow> \<forall>l \<in> set (wrapWords m ws acc cur). newline \<notin> set l"
proof (induction ws arbitrary: acc cur)
  case Nil
  then show ?case by auto
next
  case (Cons w ws)
  from Cons.prems have w: "newline \<notin> set w" and ws: "\<forall>w \<in> set ws. newline \<notin> set w" by auto
  have t: "newline \<notin> set (take k w)" for k using w by (auto dest: in_set_takeD)
  show ?case
  proof (cases rule: wrapWords_cases [of cur w m])
    case fit
    have "newline \<notin> set (if cur = [] then w else cur @ '' '' @ w)"
      using w Cons.prems(3) by simp
    from Cons.IH [OF ws Cons.prems(2) this] show ?thesis
      unfolding wrapWords_fit [OF fit] .
  next
    case flush
    have "\<forall>l \<in> set (acc @ [cur]). newline \<notin> set l" using Cons.prems(2,3) by simp
    from Cons.IH [OF ws this w] show ?thesis
      unfolding wrapWords_flush [OF flush] .
  next
    case truncate
    have "\<forall>l \<in> set (acc @ [take (nat (m - 3)) w @ ''...'']). newline \<notin> set l"
      using Cons.prems(2) t by simp
    from Cons.IH [OF ws this, of "[]"] show ?thesis
      unfolding truncate(2) wrapWords_truncate [OF truncate(1)] by simp
  qed
qed

lemma wrapLine_no_newline:
  assumes "newline \<notin> set line"
  shows "\<forall>l \<in> set (wrapLine line m). newline \<notin> set l"
proof (cases "int (length line) \<le> m")
  case True
  with assms show ?thesis by (simp add: wrapLine_def)
next
  case False
  have "\<forall>w \<in> set (split space line). newline \<notin> set w"
    using assms split_pieces_subset [of _ space line] by blast
  from wrapWords_no_newline [OF this, of "[]" "[]" m] False show ?thesis
    by (simp add: wrapLine_def)
qed

lemma wrapLine_fits: "int (length line) \<le> m \<Longrightarrow> wrapLine line m = [line]"
  by (simp add: wrapLine_def)

lemma chunkLine_inv:
  assumes "chunkInv N st" "newline \<notin> set line"
  shows "chunkInv N (chunkLine m (int N) st line)
       \<and> linesOf (chunkLine m (int N) st line) = linesOf st @ wrapLine line m"
proof (cases "int (length line) \<le> m")
  case True
  note s = push_step [OF assms]
  have "chunkLine m (int N) st line = flushIfFull (int N) (pushLine st line)"
    using True by (simp add: chunkLine_def)
  then show ?thesis using s True by (simp add: wrapLine_fits)
next
  case False
  note p = pushWrapped_inv [OF assms(1) wrapLine_no_newline [OF assms(2)], of m]
  have "chunkLine m (int N) st line = flushIfFull (int N) (pushWrapped (int N) (wrapLine line m) st)"
    using False by (simp add: chunkLine_def)
  also have "\<dots> = pushWrapped (int N) (wrapLine line m) st"
    by (rule flushIfFull_noop) (use p in blast)
  finally show ?thesis using p by simp
qed

lemma foldl_chunkLine_inv:
  "chunkInv N st \<Longrightarrow> \<forall>line \<in> set lns. newline \<notin> set line \<Longrightarrow>
   chunkInv N (foldl (chunkLine m (int N)) st lns)
   \<and> linesOf (foldl (chunkLine m (int N)) st lns)
       = linesOf st @ concat (map (\<lambda>line. wrapLine line m) lns)"
proof (induction lns arbitrary: st)
  case Nil
  then show ?case by simp
next
  case (Cons a lns)
  from Cons.prems have a: "newline \<notin> set a" and b: "\<forall>line \<in> set lns. newline \<notin> set line"
    by auto
  from chunkLine_inv [OF Cons.prems(1) a, of m]
  have i: "chunkInv N (chunkLine m (int N) st a)"
    and l: "linesOf (chunkLine m (int N) st a) = linesOf st @ wrapLine a m" by blast+
  from Cons.IH [OF i b] l show ?case by simp
qed

lemma chunked_inv:
  assumes "0 < N"
  shows "chunkInv N (chunked input m N)" and "linesOf (chunked input m N) = flowLines input m"
proof -
  have i: "chunkInv N \<lparr>chunks = [], currentChunk = [], currentChunkLines = 0\<rparr>"
    using assms by (simp add: chunkInv_def)
  have n: "\<forall>line \<in> set (split newline input). newline \<notin> set line"
    using split_pieces_no_sep by blast
  from foldl_chunkLine_inv [OF i n, of m]
  show "chunkInv N (chunked input m N)" and "linesOf (chunked input m N) = flowLines input m"
    by (simp_all add: chunked_def flowLines_def linesOf_def chunkLines_def)
qed

lemma chunkText_chunked:
  "chunkText input m (int N) =
     (if currentChunk (chunked input m N) \<noteq> []
      then chunks (chunked input m N) @ [join [newline] (currentChunk (chunked input m N))]
      else if chunks (chunked input m N) \<noteq> [] then chunks (chunked input m N)
      else [input])"
  by (simp add: chunkText_def chunked_def Let_def)

lemma length_chunkLines_full:
  "list_all (\<lambda>c. length (split newline c) = N) cs \<Longrightarrow> length (chunkLines cs) = N * length cs"
  by (induction cs) (simp_all add: chunkLines_def)

lemma chunkText_blank:
  assumes "0 < N" "flowLines input m = []"
  shows "chunkText input m (int N) = [input]"
proof -
  from chunked_inv [OF assms(1), of input m] assms(2)
  have "chunkLines (chunks (chunked input m N)) = []" "currentChunk (chunked input m N) = []"
    by (simp_all add: linesOf_def)
  moreover from this(1) have "chunks (chunked input m N) = []"
    by (cases "chunks (chunked input m N)") (simp_all add: chunkLines_def)
  ultimately show ?thesis by (simp add: chunkText_chunked)
qed

lemma ceil_div_exact: "0 < N \<Longrightarrow> (N * q + N - 1) div N = (q::nat)"
  by (rule div_nat_eqI) simp_all

lemma ceil_div_rem: "0 < r \<Longrightarrow> r < N \<Longrightarrow> (N * q + r + N - 1) div N = (q::nat) + 1"
  by (rule div_nat_eqI) simp_all

lemma chunkText_structure:
  assumes "0 < N" "flowLines input m \<noteq> []"
  shows "chunkLines (chunkText input m (int N)) = flowLines input m"
    and "\<forall>c \<in> set (chunkText input m (int N)). length (split newline c) \<le> N"
    and "length (chunkText input m (int N)) = (length (flowLines input m) + N - 1) div N"
proof -
  let ?st = "chunked input m N"
  note inv = chunked_inv [OF assms(1), of input m]
  from inv(1) have cl: "length (currentChunk ?st) < N"
    and full: "list_all (\<lambda>c. length (split newline c) = N) (chunks ?st)"
    and nn: "\<forall>l \<in> set (currentChunk ?st). newline \<notin> set l"
    by (simp_all add: chunkInv_def list_all_iff)
  have "length (flowLines input m) = length (linesOf ?st)" by (simp add: inv(2))
  then have len: "length (flowLines input m) = N * length (chunks ?st) + length (currentChunk ?st)"
    by (simp add: linesOf_def length_chunkLines_full [OF full])
  show "chunkLines (chunkText input m (int N)) = flowLines input m"
  proof (cases "currentChunk ?st = []")
    case True
    with inv(2) assms(2) have "chunks ?st \<noteq> []" by (auto simp: linesOf_def chunkLines_def)
    with True inv(2) show ?thesis by (simp add: chunkText_chunked linesOf_def)
  next
    case False
    from split_join [OF False nn]
    have "split newline (join [newline] (currentChunk ?st)) = currentChunk ?st" .
    with False inv(2) show ?thesis
      by (simp add: chunkText_chunked linesOf_def chunkLines_def)
  qed
  show "\<forall>c \<in> set (chunkText input m (int N)). length (split newline c) \<le> N"
  proof (cases "currentChunk ?st = []")
    case True
    with inv(2) assms(2) have "chunks ?st \<noteq> []" by (auto simp: linesOf_def chunkLines_def)
    with True full show ?thesis by (auto simp: chunkText_chunked list_all_iff)
  next
    case False
    from split_join [OF False nn]
    have "split newline (join [newline] (currentChunk ?st)) = currentChunk ?st" .
    with False full cl show ?thesis
      by (auto simp: chunkText_chunked list_all_iff)
  qed
  show "length (chunkText input m (int N)) = (length (flowLines input m) + N - 1) div N"
  proof (cases "currentChunk ?st = []")
    case True
    with inv(2) assms(2) have ne: "chunks ?st \<noteq> []" by (auto simp: linesOf_def chunkLines_def)
    have "(N * length (chunks ?st) + N - 1) div N = length (chunks ?st)"
      by (rule ceil_div_exact [OF assms(1)])
    with True ne len show ?thesis by (simp add: chunkText_chunked)
  next
    case False
    then have p: "0 < length (currentChunk ?st)" by simp
    have "(N * length (chunks ?st) + length (currentChunk ?st) + N - 1) div N
            = length (chunks ?st) + 1"
      by (rule ceil_div_rem [OF p cl])
    with False len show ?thesis by (simp add: chunkText_chunked)
  qed
qed

lemma wrapWords_bounded:
  "\<forall>w \<in> set ws. int (length w) \<le> m \<Longrightarrow> \<forall>l \<in> set acc. int (length l) \<le> m \<Longrightarrow>
   int (length cur) \<le> m \<Longrightarrow> \<forall>l \<in> set (wrapWords m ws acc cur). int (length l) \<le> m"
proof (induction ws arbitrary: acc cur)
  case Nil
  then show ?case by auto
next
  case (Cons w ws)
  from Cons.prems have w: "int (length w) \<le> m" and ws: "\<forall>w \<in> set ws. int (length w) \<le> m"
    by auto
  show ?case
  proof (cases rule: wrapWords_cases [of cur w m])
    case fit
    from Cons.IH [OF ws Cons.prems(2) fit] show ?thesis
      unfolding wrapWords_fit [OF fit] .
  next
    case flush
    have "\<forall>l \<in> set (acc @ [cur]). int (length l) \<le> m" using Cons.prems(2,3) by simp
    from Cons.IH [OF ws this w] show ?thesis
      unfolding wrapWords_flush [OF flush] .
  next
    case truncate
    with w show ?thesis by simp
  qed
qed

lemma wrapWords_bounded_start:
  "3 \<le> m \<Longrightarrow>
   list_all (\<lambda>w. int (length w) \<le> m) (dropWhile (\<lambda>w. m < int (length w)) ws) \<Longrightarrow>
   \<forall>l \<in> set acc. int (length l) \<le> m \<Longrightarrow>
   \<forall>l \<in> set (wrapWords m ws acc []). int (length l) \<le> m"
proof (induction ws arbitrary: acc)
  case Nil
  then show ?case by simp
next
  case (Cons w ws)
  show ?case
  proof (cases "m < int (length w)")
    case True
    then have n: "\<not> int (length w) \<le> m" by simp
    from True Cons.prems(1) have "nat (m - 3) \<le> length w" by linarith
    then have "length (take (nat (m - 3)) w) = nat (m - 3)" by simp
    with Cons.prems(1) have "int (length (take (nat (m - 3)) w @ ''...'')) = m" by simp
    with Cons.prems(3)
    have a: "\<forall>l \<in> set (acc @ [take (nat (m - 3)) w @ ''...'']). int (length l) \<le> m" by simp
    from Cons.prems(2) True
    have d: "list_all (\<lambda>w. int (length w) \<le> m) (dropWhile (\<lambda>w. m < int (length w)) ws)" by simp
    from Cons.IH [OF Cons.prems(1) d a] show ?thesis
      unfolding wrapWords_truncate [OF n] .
  next
    case False
    with Cons.prems(2) have all: "\<forall>v \<in> set (w # ws). int (length v) \<le> m"
      by (simp add: list_all_iff)
    have "int (length ([] :: string)) \<le> m" using Cons.prems(1) by simp
    from wrapWords_bounded [OF all Cons.prems(3) this] show ?thesis .
  qed
qed

lemma wrapLine_bounded:
  assumes "3 \<le> m" "longWordsFirst m line"
  shows "\<forall>l \<in> set (wrapLine line m). int (length l) \<le> m"
proof (cases "int (length line) \<le> m")
  case True
  then show ?thesis by (simp add: wrapLine_def)
next
  case False
  from wrapWords_bounded_start [OF assms(1) assms(2) [unfolded longWordsFirst_def], of "[]"] False
  show ?thesis by (simp add: wrapLine_def)
qed

lemma wordsOf_Nil [simp]: "wordsOf [] = []"
  by (simp add: wordsOf_def)

lemma wordsOf_append [simp]: "wordsOf (a @ b) = wordsOf a @ wordsOf b"
  by (simp add: wordsOf_def)

lemma wordsOf_Cons: "wordsOf (l # ls) = wordsOf [l] @ wordsOf ls"
  by (simp add: wordsOf_def)

lemma wordsOf_empty_line [simp]: "wordsOf [Nil] = []"
  by (simp add: wordsOf_def)

lemma wordsOf_word:
  "space \<notin> set w \<Longrightarrow> wordsOf [w] = (if w = [] then [] else [w])"
  by (simp add: wordsOf_def split_no_sep)

lemma wordsOf_join_word:
  "space \<notin> set w \<Longrightarrow> wordsOf [cur @ '' '' @ w] = wordsOf [cur] @ wordsOf [w]"
  by (simp add: wordsOf_def split_snoc_word split_no_sep)

lemma wordsOf_truncated:
  "space \<notin> set w \<Longrightarrow> wordsOf [take k w @ ''...''] = [take k w @ ''...'']"
proof -
  assume "space \<notin> set w"
  then have "space \<notin> set (take k w @ ''...'')" by (auto dest: in_set_takeD)
  then show ?thesis by (simp add: wordsOf_word)
qed

lemma wrapWords_words:
  "0 \<le> m \<Longrightarrow> \<forall>w \<in> set ws. space \<notin> set w \<Longrightarrow>
   \<exists>ks. wordsOf (wrapWords m ws acc cur) = wordsOf acc @ wordsOf [cur] @ ks
        \<and> list_all2 (wordKept m) (filter (\<lambda>w. w \<noteq> []) ws) ks"
proof (induction ws arbitrary: acc cur)
  case Nil
  then show ?case by simp
next
  case (Cons w ws)
  from Cons.prems have w: "space \<notin> set w" and ws: "\<forall>w \<in> set ws. space \<notin> set w" by auto
  have kw: "list_all2 (wordKept m) (filter (\<lambda>w. w \<noteq> []) [w]) (wordsOf [w])"
    by (simp add: wordsOf_word [OF w] wordKept_def)
  have step: "\<exists>ks. wordsOf acc @ wordsOf [cur] @ wordsOf [w] @ ks' =
                  wordsOf acc @ wordsOf [cur] @ ks
               \<and> list_all2 (wordKept m) (filter (\<lambda>w. w \<noteq> []) (w # ws)) ks"
    if "list_all2 (wordKept m) (filter (\<lambda>w. w \<noteq> []) ws) ks'" for ks'
  proof -
    have "filter (\<lambda>w. w \<noteq> []) (w # ws)
            = filter (\<lambda>w. w \<noteq> []) [w] @ filter (\<lambda>w. w \<noteq> []) ws" by simp
    with list_all2_appendI [OF kw that]
    have "list_all2 (wordKept m) (filter (\<lambda>w. w \<noteq> []) (w # ws)) (wordsOf [w] @ ks')"
      by (simp only:)
    then show ?thesis by blast
  qed
  show ?case
  proof (cases rule: wrapWords_cases [of cur w m])
    case fit
    let ?test = "if cur = [] then w else cur @ '' '' @ w"
    from Cons.IH [OF Cons.prems(1) ws, of acc ?test]
    obtain ks' where a: "wordsOf (wrapWords m ws acc ?test) = wordsOf acc @ wordsOf [?test] @ ks'"
      and b: "list_all2 (wordKept m) (filter (\<lambda>w. w \<noteq> []) ws) ks'" by blast
    have t: "wordsOf [?test] = wordsOf [cur] @ wordsOf [w]"
    proof (cases "cur = []")
      case True
      then show ?thesis by simp
    next
      case False
      with wordsOf_join_word [OF w, of cur] show ?thesis by simp
    qed
    from step [OF b] a show ?thesis
      unfolding wrapWords_fit [OF fit] t by simp
  next
    case flush
    from Cons.IH [OF Cons.prems(1) ws, of "acc @ [cur]" w]
    obtain ks' where a: "wordsOf (wrapWords m ws (acc @ [cur]) w)
          = wordsOf (acc @ [cur]) @ wordsOf [w] @ ks'"
      and b: "list_all2 (wordKept m) (filter (\<lambda>w. w \<noteq> []) ws) ks'" by blast
    from step [OF b] a show ?thesis
      unfolding wrapWords_flush [OF flush] by simp
  next
    case truncate
    let ?cut = "take (nat (m - 3)) w @ ''...''"
    from truncate(1) Cons.prems(1) have ne: "w \<noteq> []" by auto
    from Cons.IH [OF Cons.prems(1) ws, of "acc @ [?cut]" "[]"]
    obtain ks' where a: "wordsOf (wrapWords m ws (acc @ [?cut]) [])
          = wordsOf (acc @ [?cut]) @ wordsOf [Nil] @ ks'"
      and b: "list_all2 (wordKept m) (filter (\<lambda>w. w \<noteq> []) ws) ks'" by blast
    have k: "wordKept m w ?cut" using truncate(1) by (simp add: wordKept_def)
    have "list_all2 (wordKept m) (filter (\<lambda>w. w \<noteq> []) (w # ws)) (?cut # ks')"
      using ne k b by simp
    moreover have "wordsOf (wrapWords m (w # ws) acc cur) = wordsOf acc @ wordsOf [cur] @ ?cut # ks'"
      unfolding truncate(2) wrapWords_truncate [OF truncate(1)] a
      by (simp add: wordsOf_truncated [OF w])
    ultimately show ?thesis by blast
  qed
qed

lemma list_all2_wordKept_refl: "list_all2 (wordKept m) ws ws"
  by (simp add: list_all2_refl wordKept_def)

lemma wrapLine_words:
  assumes "0 \<le> m"
  shows "list_all2 (wordKept m) (wordsOf [line]) (wordsOf (wrapLine line m))"
proof (cases "int (length line) \<le> m")
  case True
  then show ?thesis by (simp add: wrapLine_def list_all2_wordKept_refl)
next
  case False
  have "\<forall>w \<in> set (split space line). space \<notin> set w"
    using split_pieces_no_sep by blast
  from wrapWords_words [OF assms this, of "[]" "[]"] False show ?thesis
    by (auto simp: wrapLine_def wordsOf_def)
qed

lemma flow_words:
  assumes "0 \<le> m"
  shows "list_all2 (wordKept m) (wordsOf lns) (wordsOf (concat (map (\<lambda>line. wrapLine line m) lns)))"
proof (induction lns)
  case Nil
  show ?case by simp
next
  case (Cons a lns)
  from list_all2_appendI [OF wrapLine_words [OF assms, of a] Cons.IH]
  show ?case by (simp add: wordsOf_Cons [of a lns])
qed

lemma chunkText_words:
  assumes "0 \<le> m" "0 < N"
  shows "list_all2 (wordKept m) (wordsOf (split newline input))
           (wordsOf (chunkLines (chunkText input m (int N))))"
proof (cases "flowLines input m = []")
  case True
  show ?thesis
    unfolding chunkText_blank [OF assms(2) True]
    by (simp add: chunkLines_def list_all2_wordKept_refl)
next
  case False
  show ?thesis
    unfolding chunkText_structure(1) [OF assms(2) False] flowLines_def
    by (rule flow_words [OF assms(1)])
qed

lemma split_replicate_sep:
  "split c (replicate n c @ xs) = replicate n [] @ split c xs"
  by (induction n) simp_all

lemma wrapLine_empty: "0 \<le> m \<Longrightarrow> wrapLine [] m = [Nil]"
  by (simp add: wrapLine_def)

lemma flowLines_leading_newlines:
  "0 \<le> m \<Longrightarrow> flowLines (replicate n newline @ xs) m = replicate n [] @ flowLines xs m"
  by (induction n) (simp_all add: flowLines_def wrapLine_empty)

lemma ceil_15: "\<lceil>(of_nat m :: rat) / 15\<rceil> = int ((m + 14) div 15)"
proof (rule ceiling_unique)
  let ?q = "(m + 14) div 15"
  have a: "m \<le> 15 * ?q" by presburger
  have b: "15 * ?q < m + 15" by presburger
  from a have "(of_nat m :: rat) \<le> of_nat (15 * ?q)" by (simp only: of_nat_le_iff)
  then show "(of_nat m :: rat) / 15 \<le> of_int (int ?q)" by simp
  from b have "(of_nat (15 * ?q) :: rat) < of_nat (m + 15)" by (simp only: of_nat_less_iff)
  then show "of_int (int ?q) - 1 < (of_nat m :: rat) / 15" by simp
qed

lemma tailA:
  "wrapLine (concat (replicate 11 ''aaaaaaaaaaa '') @ replicate 25 CHR ''c'') 20 =
     replicate 11 ''aaaaaaaaaaa'' @ [''ccccccccccccccccccccccccc'']"
  by code_simp

lemma blankLine: "wrapLine (replicate 21 space) 20 = []"
  by code_simp

lemma flowLines_fitting:
  assumes "\<forall>line \<in> set (split newline input). int (length line) \<le> m"
  shows "flowLines input m = split newline input"
proof -
  have "concat (map (\<lambda>line. wrapLine line m) ls) = ls"
    if "\<forall>line \<in> set ls. int (length line) \<le> m" for ls
    using that by (induction ls) (simp_all add: wrapLine_fits)
  from this [OF assms] show ?thesis by (simp add: flowLines_def)
qed

lemma chunkText_15:
  assumes "flowLines input m \<noteq> []"
  shows "chunkLines (chunkText input m 15) = flowLines input m"
    and "\<forall>c \<in> set (chunkText input m 15). length (split newline c) \<le> 15"
    and "int (length (chunkText input m 15)) = \<lceil>(of_nat (length (flowLines input m)) :: rat) / 15\<rceil>"
proof -
  have p: "(0::nat) < 15" by simp
  note s = chunkText_structure [OF p assms]
  from s(1) show "chunkLines (chunkText input m 15) = flowLines input m" by simp
  from s(2) show "\<forall>c \<in> set (chunkText input m 15). length (split newline c) \<le> 15" by simp
  from s(3) show "int (length (chunkText input m 15))
      = \<lceil>(of_nat (length (flowLines input m)) :: rat) / 15\<rceil>"
    unfolding ceil_15 by simp
qed

text \<open>
  C4, as the code has it. For a text of 200 logical lines, a limit of 20 characters and
  chunks of 15 lines:
  \<^item> when the text flows into \<open>m > 0\<close> lines, there are exactly \<open>\<lceil>m / 15\<rceil>\<close> chunks, every
    chunk has at most 15 lines, and the lines of the chunks are the flowed lines in order;
  \<^item> when no logical line is longer than 20 characters, the flowed lines are the logical
    lines and there are exactly \<open>\<lceil>200 / 15\<rceil>\<close> chunks;
  \<^item> the wrapped lines of a logical line whose over-long words all come first have at most
    20 characters;
  \<^item> the words of the output lines are the words of the input in order, each unchanged or
    cut to its first 17 characters followed by three dots.
\<close>

theorem chunkText_200_lines:
  assumes "length (split newline input) = 200"
  shows "(flowLines input 20 \<noteq> [] \<longrightarrow>
            int (length (chunkText input 20 15))
              = \<lceil>(of_nat (length (flowLines input 20)) :: rat) / 15\<rceil>
            \<and> (\<forall>c \<in> set (chunkText input 20 15). length (split newline c) \<le> 15)
            \<and> chunkLines (chunkText input 20 15) = flowLines input 20)
       \<and> ((\<forall>line \<in> set (split newline input). length line \<le> 20) \<longrightarrow>
            flowLines input 20 = split newline input
            \<and> int (length (chunkText input 20 15)) = \<lceil>(200::rat) / 15\<rceil>)
       \<and> (\<forall>line \<in> set (split newline input). longWordsFirst 20 line \<longrightarrow>
            (\<forall>l \<in> set (wrapLine line 20). length l \<le> 20))
       \<and> list_all2 (wordKept 20) (wordsOf (split newline input))
            (wordsOf (chunkLines (chunkText input 20 15)))"
proof -
  have a: "flowLines input 20 \<noteq> [] \<longrightarrow>
            int (length (chunkText input 20 15))
              = \<lceil>(of_nat (length (flowLines input 20)) :: rat) / 15\<rceil>
            \<and> (\<forall>c \<in> set (chunkText input 20 15). length (split newline c) \<le> 15)
            \<and> chunkLines (chunkText input 20 15) = flowLines input 20"
    using chunkText_15 [of input 20] by blast
  have b: "flowLines input 20 = split newline input
            \<and> int (length (chunkText input 20 15)) = \<lceil>(200::rat) / 15\<rceil>"
    if h: "\<forall>line \<in> set (split newline input). length line \<le> 20"
  proof -
    from h have "\<forall>line \<in> set (split newline input). int (length line) \<le> 20" by simp
    from flowLines_fitting [OF this] have f: "flowLines input 20 = split newline input" .
    then have "flowLines input 20 \<noteq> []" by simp
    from chunkText_15(3) [OF this] f assms show ?thesis by simp
  qed
  have c: "\<forall>line \<in> set (split newline input). longWordsFirst 20 line \<longrightarrow>
            (\<forall>l \<in> set (wrapLine line 20). length l \<le> 20)"
  proof (intro ballI impI)
    fix line l
    assume "longWordsFirst 20 line" "l \<in> set (wrapLine line 20)"
    with wrapLine_bounded [of 20 line] show "length l \<le> 20" by auto
  qed
  have d: "list_all2 (wordKept 20) (wordsOf (split newline input))
            (wordsOf (chunkLines (chunkText input 20 15)))"
    using chunkText_words [of 20 15 input] by simp
  from a b c d show ?thesis by blast
qed

lemma wrappingText_lines:
  "split newline wrappingText =
     replicate 199 [] @ [concat (replicate 11 ''aaaaaaaaaaa '') @ replicate 25 CHR ''c'']"
proof -
  have "split newline (concat (replicate 11 ''aaaaaaaaaaa '') @ replicate 25 CHR ''c'')
      = [concat (replicate 11 ''aaaaaaaaaaa '') @ replicate 25 CHR ''c'']"
    by code_simp
  then show ?thesis by (simp only: wrappingText_def split_replicate_sep)
qed

lemma wrappingText_flow:
  "flowLines wrappingText 20 =
     replicate 199 [] @ replicate 11 ''aaaaaaaaaaa'' @ [''ccccccccccccccccccccccccc'']"
  unfolding flowLines_def wrappingText_lines
  by (simp add: wrapLine_empty tailA map_replicate_const)

lemma blankText_lines: "split newline blankText = replicate 200 (replicate 21 space)"
  unfolding blankText_def
  by (rule split_join) (simp_all)

lemma blankText_flow: "flowLines blankText 20 = []"
  unfolding flowLines_def blankText_lines
  by (simp add: blankLine)

text \<open>
  Counterexample to C4 as stated. The first sample text has 200 logical lines and flows into 211
  lines, hence 15 chunks and not \<open>\<lceil>200 / 15\<rceil>\<close>, and one of its output lines has 25
  characters: a word longer than the limit that follows a pending line is pushed whole.
  The second has 200 logical lines of spaces only, which flow into no line at all, and
  comes back as one chunk of 200 lines.
\<close>

theorem chunk_count_and_width_counterexample:
  "length (split newline wrappingText) = 200
   \<and> length (chunkText wrappingText 20 15) = 15
   \<and> int (length (chunkText wrappingText 20 15)) \<noteq> \<lceil>(200::rat) / 15\<rceil>
   \<and> ''ccccccccccccccccccccccccc'' \<in> set (chunkLines (chunkText wrappingText 20 15))
   \<and> length (split newline blankText) = 200
   \<and> chunkText blankText 20 15 = [blankText]"
proof -
  have ne: "flowLines wrappingText 20 \<noteq> []" by (simp add: wrappingText_flow)
  have l: "length (flowLines wrappingText 20) = 211" by (simp add: wrappingText_flow)
  have c14: "\<lceil>(200::rat) / 15\<rceil> = 14" by (rule ceiling_unique) simp_all
  have c15: "\<lceil>(211::rat) / 15\<rceil> = 15" by (rule ceiling_unique) simp_all
  have 1: "length (split newline wrappingText) = 200" by (simp add: wrappingText_lines)
  have 2: "int (length (chunkText wrappingText 20 15)) = 15"
    using chunkText_15(3) [OF ne] by (simp add: l c15)
  have 3: "''ccccccccccccccccccccccccc'' \<in> set (chunkLines (chunkText wrappingText 20 15))"
    unfolding chunkText_15(1) [OF ne] wrappingText_flow by simp
  have 4: "length (split newline blankText) = 200" by (simp add: blankText_lines)
  have p: "(0::nat) < 15" by simp
  have 5: "chunkText blankText 20 15 = [blankText]"
    using chunkText_blank [OF p blankText_flow] by simp
  from 1 2 3 4 5 c14 show ?thesis by simp
qed

theorem chunkText_200_lines_witness:
  "length (split newline emptyLinesText) = 200
   \<and> int (length (chunkText emptyLinesText 20 15)) = \<lceil>(200::rat) / 15\<rceil>
   \<and> list_all (\<lambda>c. length (split newline c) \<le> 15) (chunkText emptyLinesText 20 15)
   \<and> chunkLines (chunkText emptyLinesText 20 15) = split newline emptyLinesText
   \<and> int (length (chunkText wrappingText 20 15)) = \<lceil>(211::rat) / 15\<rceil>"
proof -
  have s: "split newline emptyLinesText = replicate 199 [] @ [Nil]"
    using split_replicate_sep [of newline 199 "[]"] by (simp add: emptyLinesText_def)
  have n: "length (split newline emptyLinesText) = 200" by (simp add: s)
  have f: "\<forall>line \<in> set (split newline emptyLinesText). length line \<le> 20" by (auto simp: s)
  have n': "length (split newline wrappingText) = 200" by (simp add: wrappingText_lines)
  have ne: "flowLines wrappingText 20 \<noteq> []" by (simp add: wrappingText_flow)
  have l: "length (flowLines wrappingText 20) = 211" by (simp add: wrappingText_flow)
  from chunkText_200_lines [OF n] f
  have a: "flowLines emptyLinesText 20 = split newline emptyLinesText"
    and b: "int (length (chunkText emptyLinesText 20 15)) = \<lceil>(200::rat) / 15\<rceil>"
    by blast+
  from a n have "flowLines emptyLinesText 20 \<noteq> []" by auto
  with chunkText_200_lines [OF n] a
  have c: "\<forall>c \<in> set (chunkText emptyLinesText 20 15). length (split newline c) \<le> 15"
    and d: "chunkLines (chunkText emptyLinesText 20 15) = split newline emptyLinesText"
    by simp_all
  from chunkText_200_lines [OF n'] ne l
  have e: "int (length (chunkText wrappingText 20 15)) = \<lceil>(211::rat) / 15\<rceil>" by simp
  from c have c': "list_all (\<lambda>c. length (split newline c) \<le> 15) (chunkText emptyLinesText 20 15)"
    by (simp add: list_all_iff)
  from n b c' d e show ?thesis by blast
qed


end
